theory Spec2Isabelle
  imports Complex_Main "HOL-Library.Word"
begin

unbundle bit_operations_syntax

section \<open>Python strings\<close>

text \<open>
  A Python \<open>str\<close> is a sequence of Unicode code points and \<open>len\<close> counts code points.
  Isabelle's \<open>char\<close> has 8 bits, and the crawler uses the character U+2026, so a string is
  modelled as the list of its code points. \<open>py\<close> turns an ASCII literal into such a list.
\<close>

type_synonym pystr = "nat list"

definition py :: "string \<Rightarrow> pystr" where
  "py s = map of_char s"

definition ch :: "char \<Rightarrow> nat" where
  "ch c = of_char c"

definition isspace :: "nat \<Rightarrow> bool" where
  \<comment> \<open>\<open>str.isspace\<close> on one code point: the separators of \<open>str.split()\<close>.\<close>
  "isspace c \<longleftrightarrow>
     (9 \<le> c \<and> c \<le> 13) \<or> (28 \<le> c \<and> c \<le> 32) \<or> c = 133 \<or> c = 160 \<or> c = 5760 \<or>
     (8192 \<le> c \<and> c \<le> 8202) \<or> c = 8232 \<or> c = 8233 \<or> c = 8239 \<or> c = 8287 \<or> c = 12288"

fun split_acc :: "pystr \<Rightarrow> pystr \<Rightarrow> pystr list" where
  "split_acc cur [] = (if cur = [] then [] else [cur])"
| "split_acc cur (c # cs) =
     (if isspace c then (if cur = [] then split_acc [] cs else cur # split_acc [] cs)
      else split_acc (cur @ [c]) cs)"

definition split_ws :: "pystr \<Rightarrow> pystr list" where
  \<comment> \<open>\<open>s.split()\<close>: the maximal runs of non-whitespace, in order.\<close>
  "split_ws s = split_acc [] s"

fun join :: "pystr \<Rightarrow> pystr list \<Rightarrow> pystr" where
  \<comment> \<open>\<open>sep.join(ws)\<close>\<close>
  "join sep [] = []"
| "join sep [w] = w"
| "join sep (w # v # ws) = w @ sep @ join sep (v # ws)"

definition slice_to :: "'a list \<Rightarrow> int \<Rightarrow> 'a list" where
  \<comment> \<open>\<open>xs[:m]\<close>: a negative bound counts from the end.\<close>
  "slice_to xs m = (if 0 \<le> m then take (nat m) xs else take (length xs - nat (- m)) xs)"

section \<open>\<open>summarize\<close>\<close>

definition ellipsis :: nat where
  \<comment> \<open>the one-character string U+2026\<close>
  "ellipsis = 8230"

definition summarize_txt :: "pystr \<Rightarrow> pystr" where
  \<comment> \<open>the local \<open>txt\<close> of \<open>summarize\<close>\<close>
  "summarize_txt text = join [32] (split_ws text)"

definition summarize :: "pystr \<Rightarrow> int \<Rightarrow> pystr" where
  "summarize text max_chars =
     (let txt = summarize_txt text
      in slice_to txt max_chars @ (if max_chars < int (length txt) then [ellipsis] else []))"

definition sparse_text :: pystr where
  \<comment> \<open>the letter a, a thousand spaces, the letter b\<close>
  "sparse_text = ch CHR ''a'' # replicate 1000 32 @ [ch CHR ''b'']"

section \<open>String operations of the standard library\<close>

definition lower_cp :: "nat \<Rightarrow> nat" where
  \<comment> \<open>\<open>str.lower\<close> on one code point: exact below 256 and on U+212A, the only code point
      above 127 whose lower-case form is ASCII; every other code point is left as it is
      (its lower-case form is not ASCII either).\<close>
  "lower_cp c =
     (if 65 \<le> c \<and> c \<le> 90 then c + 32
      else if 192 \<le> c \<and> c \<le> 222 \<and> c \<noteq> 215 then c + 32
      else if c = 8490 then 107
      else c)"

definition lower :: "pystr \<Rightarrow> pystr" where
  "lower s = map lower_cp s"

definition strip :: "pystr \<Rightarrow> pystr" where
  \<comment> \<open>\<open>s.strip()\<close>\<close>
  "strip s = rev (dropWhile isspace (rev (dropWhile isspace s)))"

fun startswith :: "'a list \<Rightarrow> 'a list \<Rightarrow> bool" where
  \<comment> \<open>\<open>s.startswith(p)\<close>\<close>
  "startswith s [] = True"
| "startswith [] (p # ps) = False"
| "startswith (c # cs) (p # ps) = (c = p \<and> startswith cs ps)"

definition endswith :: "'a list \<Rightarrow> 'a list \<Rightarrow> bool" where
  "endswith s p = startswith (rev s) (rev p)"

fun contains :: "'a list \<Rightarrow> 'a list \<Rightarrow> bool" where
  \<comment> \<open>\<open>needle in s\<close> for strings\<close>
  "contains needle [] = (needle = [])"
| "contains needle (c # cs) = (startswith (c # cs) needle \<or> contains needle cs)"

function replace :: "pystr \<Rightarrow> pystr \<Rightarrow> pystr \<Rightarrow> pystr" where
  \<comment> \<open>\<open>s.replace(old, new)\<close> for a non-empty \<open>old\<close>\<close>
  "replace old new [] = []"
| "replace old new (c # cs) =
     (if old \<noteq> [] \<and> startswith (c # cs) old
      then new @ replace old new (drop (length old) (c # cs))
      else c # replace old new cs)"
  by pat_completeness auto
termination
  by (relation "measure (\<lambda>(old, new, s). length s)") auto

function digits :: "nat \<Rightarrow> pystr" where
  \<comment> \<open>the decimal digits of a natural number\<close>
  "digits n = (if n < 10 then [48 + n] else digits (n div 10) @ [48 + n mod 10])"
  by pat_completeness auto
termination
  by (relation "measure (\<lambda>n. n)") auto

declare digits.simps [simp del]

definition str_int :: "int \<Rightarrow> pystr" where
  \<comment> \<open>\<open>str(i)\<close> for an integer\<close>
  "str_int i = (if i < 0 then 45 # digits (nat (- i)) else digits (nat i))"

fun fromkeys_acc :: "'a list \<Rightarrow> 'a list \<Rightarrow> 'a list" where
  "fromkeys_acc had [] = []"
| "fromkeys_acc had (x # xs) =
     (if x \<in> set had then fromkeys_acc had xs else x # fromkeys_acc (x # had) xs)"

definition fromkeys :: "'a list \<Rightarrow> 'a list" where
  \<comment> \<open>\<open>list(dict.fromkeys(xs))\<close>: the first occurrence of each element, in order\<close>
  "fromkeys xs = fromkeys_acc [] xs"

section \<open>Regular expressions\<close>

text \<open>
  The patterns of the crawler that are searched with \<open>re.I\<close>. A literal matches
  case-insensitively; under \<open>re.I\<close> the letters i, k and s of a pattern also match
  U+0130 and U+0131, U+212A, and U+017F. \<open>Dot\<close> is any character except the newline,
  and \<open>Eol\<close> is \<open>$\<close>: the end of the string, or the position before a final newline.
\<close>

datatype rx = LitI nat | Dot | Seq rx rx | Alt rx rx | Opt rx | DotStar | Eol

definition ci_chars :: "nat \<Rightarrow> nat list" where
  \<comment> \<open>the characters that a literal of a pattern matches under \<open>re.I\<close>\<close>
  "ci_chars p =
     (if 97 \<le> p \<and> p \<le> 122 then
        [p, p - 32] @ (if p = 105 then [304, 305] else if p = 107 then [8490]
                       else if p = 115 then [383] else [])
      else if 65 \<le> p \<and> p \<le> 90 then
        [p, p + 32] @ (if p = 73 then [304, 305] else if p = 75 then [8490]
                       else if p = 83 then [383] else [])
      else [p])"

fun rx_run :: "rx \<Rightarrow> pystr \<Rightarrow> pystr list" where
  \<comment> \<open>the rests of the string after each way of matching the pattern at its start\<close>
  "rx_run (LitI p) s = (case s of [] \<Rightarrow> [] | c # cs \<Rightarrow> if c \<in> set (ci_chars p) then [cs] else [])"
| "rx_run Dot s = (case s of [] \<Rightarrow> [] | c # cs \<Rightarrow> if c \<noteq> 10 then [cs] else [])"
| "rx_run (Seq a b) s = concat (map (rx_run b) (rx_run a s))"
| "rx_run (Alt a b) s = rx_run a s @ rx_run b s"
| "rx_run (Opt a) s = rx_run a s @ [s]"
| "rx_run DotStar s = rev (map (\<lambda>n. drop n s) [0 ..< Suc (length (takeWhile (\<lambda>c. c \<noteq> 10) s))])"
| "rx_run Eol s = (if s = [] \<or> s = [10] then [s] else [])"

fun tails :: "'a list \<Rightarrow> 'a list list" where
  "tails [] = [[]]"
| "tails (x # xs) = (x # xs) # tails xs"

definition rx_search :: "rx \<Rightarrow> pystr \<Rightarrow> bool" where
  \<comment> \<open>\<open>re.search(pattern, s, re.I)\<close> finds a match\<close>
  "rx_search r s = list_ex (\<lambda>t. rx_run r t \<noteq> []) (tails s)"

definition word :: "string \<Rightarrow> rx" where
  \<comment> \<open>a sequence of literals; the argument is not empty\<close>
  "word w = foldr Seq (map (\<lambda>c. LitI (of_char c)) (butlast w)) (LitI (of_char (last w)))"

definition alts :: "rx list \<Rightarrow> rx" where
  \<comment> \<open>\<open>a|b|c\<close>; the argument is not empty\<close>
  "alts rs = foldr Alt (butlast rs) (last rs)"

definition asset_alternatives :: "rx list" where
  \<comment> \<open>\<open>jpg|jpeg|png|gif|svg|webp|ico|css|js|woff2?|ttf|eot|mp4|webm|zip|rar\<close>\<close>
  "asset_alternatives =
     [word ''jpg'', word ''jpeg'', word ''png'', word ''gif'', word ''svg'', word ''webp'',
      word ''ico'', word ''css'', word ''js'', Seq (word ''woff'') (Opt (LitI (ch CHR ''2''))),
      word ''ttf'', word ''eot'', word ''mp4'', word ''webm'', word ''zip'', word ''rar'']"

definition asset_tail :: rx where
  \<comment> \<open>\<open>(\?.*)?$\<close>\<close>
  "asset_tail = Seq (Opt (Seq (LitI (ch CHR ''?'')) DotStar)) Eol"

definition asset_rx :: rx where
  \<comment> \<open>\<open>\.(jpg|jpeg|png|gif|svg|webp|ico|css|js|woff2?|ttf|eot|mp4|webm|zip|rar)(\?.*)?$\<close>\<close>
  "asset_rx = Seq (LitI (ch CHR ''.'')) (Seq (alts asset_alternatives) asset_tail)"

definition office_rx :: rx where
  \<comment> \<open>\<open>\.(doc|xls|ppt)(x)?$\<close>\<close>
  "office_rx =
     Seq (LitI (ch CHR ''.''))
       (Seq (alts [word ''doc'', word ''xls'', word ''ppt''])
         (Seq (Opt (LitI (ch CHR ''x''))) Eol))"

section \<open>Exceptions and the environment\<close>

text \<open>
  An exception is its class name and its message (\<open>str(e)\<close>). A function that can raise
  returns \<open>exn + 'a\<close>, with \<open>Inl\<close> for the exception.

  The crawler calls the network, the clock and parsing libraries. They are the fields of
  the environment \<open>env\<close>; nothing is assumed about them. The outcome of a page
  fetch and the clock may differ from one call to the next, so both take the number of
  page records written so far in the run, which grows by one with each fetch.
\<close>

datatype exn = Exn pystr pystr

fun exn_str :: "exn \<Rightarrow> pystr" where
  "exn_str (Exn cls msg) = msg"

type_synonym bytes = "nat list"

type_synonym headers = "(pystr \<times> pystr) list"

datatype urlopen_result = HTTPError int | OtherError exn | Body bytes

record env =
  requests_get :: "nat \<Rightarrow> pystr \<Rightarrow> exn + (int \<times> pystr option \<times> bytes \<times> headers)"
  utcnow :: "nat \<Rightarrow> pystr"
  decode_ignore :: "bytes \<Rightarrow> pystr"
  readability :: "pystr \<Rightarrow> exn + (pystr \<times> pystr)"
  soup_get_text :: "pystr \<Rightarrow> pystr"
  soup_hrefs :: "pystr \<Rightarrow> pystr list"
  urljoin :: "pystr \<Rightarrow> pystr \<Rightarrow> exn + pystr"
  pdf_extract_text :: "bytes \<Rightarrow> exn + pystr option"
  docx_paragraphs :: "bytes \<Rightarrow> exn + pystr list"
  sitemap_get :: "pystr \<Rightarrow> exn + (int \<times> pystr option \<times> pystr list)"
  robots_urlopen :: "pystr \<Rightarrow> urlopen_result"
  decode_strict :: "bytes \<Rightarrow> exn + pystr"
  robots_entries :: "pystr \<Rightarrow> pystr \<Rightarrow> exn + bool"
  nfkc :: "pystr \<Rightarrow> pystr"
  check_bracketed_host :: "pystr \<Rightarrow> exn option"
  time_sleep :: "real \<Rightarrow> exn option"

text \<open>
  The fields, in order:
  \<^item> \<open>requests_get\<close>: \<open>requests.get(url, ...)\<close> of \<open>fetch\<close>: the status, the content-type
    header if there is one, the content and the headers; or the exception raised;
  \<^item> \<open>utcnow\<close>: \<open>datetime.datetime.utcnow().isoformat()\<close>;
  \<^item> \<open>decode_ignore\<close>: \<open>content.decode("utf-8", "ignore")\<close>;
  \<^item> \<open>readability\<close>: the body of \<open>clean_html_to_text\<close> (readability, the lxml cleaner
    and BeautifulSoup), which returns a title and a text or raises;
  \<^item> \<open>soup_get_text\<close>: \<open>BeautifulSoup(html, "html.parser").get_text(" ", strip=True)\<close>;
  \<^item> \<open>soup_hrefs\<close>: the \<open>href\<close> values of
    \<open>BeautifulSoup(html, "html.parser").find_all("a", href=True)\<close>, in document order;
  \<^item> \<open>urljoin\<close>: \<open>urllib.parse.urljoin\<close>;
  \<^item> \<open>pdf_extract_text\<close>: \<open>pdfminer.high_level.extract_text\<close>, which may return nothing;
  \<^item> \<open>docx_paragraphs\<close>: the paragraph texts of \<open>docx.Document\<close>;
  \<^item> \<open>sitemap_get\<close>: the request for a sitemap and the parse of its body: the status, the
    content-type header if there is one, and the texts of the \<open>loc\<close> elements;
  \<^item> \<open>robots_urlopen\<close>: \<open>urllib.request.urlopen\<close> and \<open>read\<close> on the robots.txt URL;
  \<^item> \<open>decode_strict\<close>: \<open>raw.decode("utf-8")\<close>;
  \<^item> \<open>robots_entries\<close>: what the entries parsed from a robots.txt body answer for the
    crawler's user agent and a URL;
  \<^item> \<open>nfkc\<close>: \<open>unicodedata.normalize('NFKC', s)\<close>;
  \<^item> \<open>check_bracketed_host\<close>: the exception that \<open>_check_bracketed_host\<close> of urllib
    raises for a bracketed host, if any;
  \<^item> \<open>time_sleep\<close>: the exception that \<open>time.sleep(d)\<close> raises, if any: CPython raises
    ValueError for a negative delay and for a NaN, and OverflowError or OSError for a delay
    beyond what the platform can wait for. A delay that is not a finite number has no
    value of its own here; it ends the run at the first sleep, as \<open>time_sleep\<close> may for
    any delay.
\<close>

section \<open>\<open>urllib.parse.urlparse\<close>\<close>

text \<open>
  The splitting of CPython 3.11's \<open>urlsplit\<close> and \<open>urlparse\<close>, for the default
  arguments \<open>scheme=''\<close> and \<open>allow_fragments=True\<close>.
\<close>

record parsed =
  scheme :: pystr
  netloc :: pystr
  path :: pystr
  params :: pystr
  query :: pystr
  fragment :: pystr

definition scheme_chars :: "nat \<Rightarrow> bool" where
  "scheme_chars c \<longleftrightarrow>
     (97 \<le> c \<and> c \<le> 122) \<or> (65 \<le> c \<and> c \<le> 90) \<or> (48 \<le> c \<and> c \<le> 57) \<or>
     c = ch CHR ''+'' \<or> c = ch CHR ''-'' \<or> c = ch CHR ''.''"

definition ascii_alpha :: "nat \<Rightarrow> bool" where
  \<comment> \<open>\<open>c.isascii() and c.isalpha()\<close>\<close>
  "ascii_alpha c \<longleftrightarrow> (97 \<le> c \<and> c \<le> 122) \<or> (65 \<le> c \<and> c \<le> 90)"

definition partition1 :: "nat \<Rightarrow> pystr \<Rightarrow> pystr \<times> pystr" where
  \<comment> \<open>\<open>s.split(c, 1)\<close> when \<open>c\<close> occurs in \<open>s\<close>; otherwise \<open>s\<close> and the empty string\<close>
  "partition1 c s = (takeWhile (\<lambda>x. x \<noteq> c) s, drop 1 (dropWhile (\<lambda>x. x \<noteq> c) s))"

definition split_scheme :: "pystr \<Rightarrow> pystr \<times> pystr" where
  "split_scheme url1 =
     (let pre = takeWhile (\<lambda>x. x \<noteq> ch CHR '':'') url1
      in if ch CHR '':'' \<in> set url1 \<and> pre \<noteq> [] \<and> ascii_alpha (hd url1) \<and> list_all scheme_chars pre
         then (lower pre, drop (Suc (length pre)) url1)
         else ([], url1))"

definition netloc_delim :: "nat \<Rightarrow> bool" where
  "netloc_delim c \<longleftrightarrow> c = ch CHR ''/'' \<or> c = ch CHR ''?'' \<or> c = ch CHR ''#''"

definition splitnetloc :: "pystr \<Rightarrow> pystr \<times> pystr" where
  \<comment> \<open>\<open>_splitnetloc(url, 2)\<close>\<close>
  "splitnetloc url2 =
     (takeWhile (\<lambda>c. \<not> netloc_delim c) (drop 2 url2),
      dropWhile (\<lambda>c. \<not> netloc_delim c) (drop 2 url2))"

definition checknetloc :: "env \<Rightarrow> pystr \<Rightarrow> exn option" where
  \<comment> \<open>\<open>_checknetloc\<close>\<close>
  "checknetloc E nl =
     (if nl = [] \<or> list_all (\<lambda>c. c < 128) nl then None
      else
        let n = filter (\<lambda>c. c \<noteq> ch CHR ''@'' \<and> c \<noteq> ch CHR '':'' \<and> c \<noteq> ch CHR ''#''
                            \<and> c \<noteq> ch CHR ''?'') nl;
            netloc2 = nfkc E n
        in if n = netloc2 then None
           else if list_ex (\<lambda>c. c \<in> set netloc2) (py ''/?#@:'')
           then Some (Exn (py ''ValueError'')
                  (py ''netloc '' @ [39] @ nl @ [39] @
                   py '' contains invalid characters under NFKC normalization''))
           else None)"

definition urlsplit :: "env \<Rightarrow> pystr \<Rightarrow> exn + parsed" where
  "urlsplit E url0 =
     (let url1 = filter (\<lambda>c. c \<noteq> 9 \<and> c \<noteq> 13 \<and> c \<noteq> 10) (dropWhile (\<lambda>c. c \<le> 32) url0);
          (sch, url2) = split_scheme url1;
          (nl, url3) = (if take 2 url2 = py ''//'' then splitnetloc url2 else ([], url2));
          lb = (ch CHR ''['' \<in> set nl);
          rb = (ch CHR '']'' \<in> set nl)
      in if (lb \<and> \<not> rb) \<or> (rb \<and> \<not> lb)
         then Inl (Exn (py ''ValueError'') (py ''Invalid IPv6 URL''))
         else
           case (if lb \<and> rb
                 then check_bracketed_host E
                        (fst (partition1 (ch CHR '']'') (snd (partition1 (ch CHR ''['') nl))))
                 else None) of
             Some e \<Rightarrow> Inl e
           | None \<Rightarrow>
               let (url4, frag) = partition1 (ch CHR ''#'') url3;
                   (url5, qry) = partition1 (ch CHR ''?'') url4
               in (case checknetloc E nl of
                     Some e \<Rightarrow> Inl e
                   | None \<Rightarrow> Inr \<lparr>scheme = sch, netloc = nl, path = url5, params = [],
                                   query = qry, fragment = frag\<rparr>))"

definition uses_params :: "pystr list" where
  "uses_params = map py [[], ''ftp'', ''hdl'', ''prospero'', ''http'', ''imap'', ''https'',
     ''shttp'', ''rtsp'', ''rtsps'', ''rtspu'', ''sip'', ''sips'', ''mms'', ''sftp'', ''tel'']"

definition rfind_slash :: "pystr \<Rightarrow> nat" where
  \<comment> \<open>\<open>url.rfind('/')\<close> when the string has a slash\<close>
  "rfind_slash s = length s - Suc (length (takeWhile (\<lambda>c. c \<noteq> ch CHR ''/'') (rev s)))"

definition splitparams :: "pystr \<Rightarrow> pystr \<times> pystr" where
  \<comment> \<open>\<open>_splitparams\<close>, called on a string that has a semicolon\<close>
  "splitparams s =
     (if ch CHR ''/'' \<in> set s then
        (let k = rfind_slash s
         in if ch CHR '';'' \<in> set (drop k s)
            then (take k s @ fst (partition1 (ch CHR '';'') (drop k s)),
                  snd (partition1 (ch CHR '';'') (drop k s)))
            else (s, []))
      else partition1 (ch CHR '';'') s)"

definition urlparse :: "env \<Rightarrow> pystr \<Rightarrow> exn + parsed" where
  "urlparse E url0 =
     (case urlsplit E url0 of
        Inl e \<Rightarrow> Inl e
      | Inr r \<Rightarrow>
          if scheme r \<in> set uses_params \<and> ch CHR '';'' \<in> set (path r)
          then Inr (r\<lparr>path := fst (splitparams (path r)), params := snd (splitparams (path r))\<rparr>)
          else Inr r)"

section \<open>The scope filter\<close>

definition ALLOWED_NETLOCS :: "pystr set" where
  "ALLOWED_NETLOCS = {py ''deltawonen.nl'', py ''www.deltawonen.nl''}"

definition is_allowed_try :: "env \<Rightarrow> pystr \<Rightarrow> exn + bool" where
  \<comment> \<open>the \<open>try\<close> block of \<open>is_allowed\<close>\<close>
  "is_allowed_try E u =
     (case urlparse E u of
        Inl e \<Rightarrow> Inl e
      | Inr p \<Rightarrow>
          if scheme p \<notin> {py ''http'', py ''https''} then Inr False
          else if lower (netloc p) \<notin> ALLOWED_NETLOCS then Inr False
          else if rx_search asset_rx (path p) then Inr False
          else Inr True)"

definition is_allowed :: "env \<Rightarrow> pystr \<Rightarrow> bool" where
  \<comment> \<open>the bare \<open>except\<close> turns every exception into \<open>False\<close>\<close>
  "is_allowed E u = (case is_allowed_try E u of Inl e \<Rightarrow> False | Inr b \<Rightarrow> b)"

definition absolutize :: "env \<Rightarrow> pystr \<Rightarrow> pystr \<Rightarrow> exn + pystr" where
  "absolutize E base href = urljoin E base (strip href)"

section \<open>SHA-1\<close>

text \<open>
  \<open>hashlib.sha1(s.encode("utf-8", "ignore")).hexdigest()\<close>: the UTF-8 encoding that drops
  the surrogate code points, SHA-1 on 32-bit words, and the digest in lower-case
  hexadecimal.
\<close>

definition utf8_cp :: "nat \<Rightarrow> bytes" where
  "utf8_cp c =
     (if c < 128 then [c]
      else if c < 2048 then [192 + c div 64, 128 + c mod 64]
      else if 55296 \<le> c \<and> c \<le> 57343 then []
      else if c < 65536 then [224 + c div 4096, 128 + (c div 64) mod 64, 128 + c mod 64]
      else [240 + c div 262144, 128 + (c div 4096) mod 64, 128 + (c div 64) mod 64,
            128 + c mod 64])"

definition encode_utf8_ignore :: "pystr \<Rightarrow> bytes" where
  "encode_utf8_ignore s = concat (map utf8_cp s)"

definition sha1_pad :: "bytes \<Rightarrow> bytes" where
  "sha1_pad m =
     m @ [128] @ replicate ((119 - length m mod 64) mod 64) 0 @
     map (\<lambda>i. (8 * length m) div 256 ^ (7 - i) mod 256) [0 ..< 8]"

fun be_words :: "bytes \<Rightarrow> 32 word list" where
  "be_words (a # b # c # d # bs) =
     (of_nat a * 16777216 + of_nat b * 65536 + of_nat c * 256 + of_nat d) # be_words bs"
| "be_words bs = []"

fun blocks :: "nat \<Rightarrow> 32 word list \<Rightarrow> 32 word list list" where
  "blocks 0 ws = []"
| "blocks (Suc n) ws = take 16 ws # blocks n (drop 16 ws)"

fun schedule :: "nat \<Rightarrow> 32 word list \<Rightarrow> 32 word list" where
  "schedule 0 ws = ws"
| "schedule (Suc n) ws =
     schedule n
       (ws @ [word_rotl 1 (ws ! (length ws - 3) XOR ws ! (length ws - 8) XOR
                           ws ! (length ws - 14) XOR ws ! (length ws - 16))])"

definition sha1_f :: "nat \<Rightarrow> 32 word \<Rightarrow> 32 word \<Rightarrow> 32 word \<Rightarrow> 32 word" where
  "sha1_f t b c d =
     (if t < 20 then (b AND c) OR (NOT b AND d)
      else if t < 40 then b XOR c XOR d
      else if t < 60 then (b AND c) OR (b AND d) OR (c AND d)
      else b XOR c XOR d)"

definition sha1_k :: "nat \<Rightarrow> 32 word" where
  "sha1_k t =
     (if t < 20 then 0x5A827999 else if t < 40 then 0x6ED9EBA1
      else if t < 60 then 0x8F1BBCDC else 0xCA62C1D6)"

type_synonym sha1_state = "32 word \<times> 32 word \<times> 32 word \<times> 32 word \<times> 32 word"

definition sha1_round :: "32 word list \<Rightarrow> nat \<Rightarrow> sha1_state \<Rightarrow> sha1_state" where
  "sha1_round w t s =
     (case s of (a, b, c, d, e) \<Rightarrow>
        (word_rotl 5 a + sha1_f t b c d + e + sha1_k t + w ! t, a, word_rotl 30 b, c, d))"

definition sha1_block :: "sha1_state \<Rightarrow> 32 word list \<Rightarrow> sha1_state" where
  "sha1_block h blk =
     (case (h, fold (sha1_round (schedule 64 blk)) [0 ..< 80] h) of
        ((h0, h1, h2, h3, h4), (a, b, c, d, e)) \<Rightarrow> (h0 + a, h1 + b, h2 + c, h3 + d, h4 + e))"

definition sha1_init :: sha1_state where
  "sha1_init = (0x67452301, 0xEFCDAB89, 0x98BADCFE, 0x10325476, 0xC3D2E1F0)"

definition sha1_digest :: "bytes \<Rightarrow> sha1_state" where
  "sha1_digest m =
     (let ws = be_words (sha1_pad m)
      in foldl sha1_block sha1_init (blocks (length ws div 16) ws))"

definition hex_digit :: "nat \<Rightarrow> nat" where
  "hex_digit n = (if n < 10 then 48 + n else 87 + n)"

definition hex_word :: "32 word \<Rightarrow> pystr" where
  "hex_word w = map (\<lambda>i. hex_digit (unat w div 16 ^ (7 - i) mod 16)) [0 ..< 8]"

definition hexdigest :: "sha1_state \<Rightarrow> pystr" where
  "hexdigest s =
     (case s of (a, b, c, d, e) \<Rightarrow>
        hex_word a @ hex_word b @ hex_word c @ hex_word d @ hex_word e)"

definition sha1_text :: "pystr \<Rightarrow> pystr" where
  "sha1_text s = hexdigest (sha1_digest (encode_utf8_ignore s))"

section \<open>File names and text extraction\<close>

definition basename :: "pystr \<Rightarrow> pystr" where
  \<comment> \<open>\<open>os.path.basename\<close> on a POSIX path: what follows the last slash\<close>
  "basename p = rev (takeWhile (\<lambda>c. c \<noteq> ch CHR ''/'') (rev p))"

definition header_get :: "headers \<Rightarrow> pystr \<Rightarrow> pystr option" where
  \<comment> \<open>\<open>headers.get(key)\<close> on the plain dictionary of the response headers\<close>
  "header_get hs k = map_of hs k"

fun filename_search :: "pystr \<Rightarrow> pystr option" where
  \<comment> \<open>group 1 of the leftmost match of \<open>filename="?([^"]+)"?\<close>\<close>
  "filename_search [] = None"
| "filename_search (c # cs) =
     (if startswith (c # cs) (py ''filename='') then
        (let r = drop 9 (c # cs);
             r' = (if r \<noteq> [] \<and> hd r = 34 then tl r else r);
             body = takeWhile (\<lambda>x. x \<noteq> 34) r'
         in if body \<noteq> [] then Some body else filename_search cs)
      else filename_search cs)"

definition fname_char :: "nat \<Rightarrow> bool" where
  \<comment> \<open>the class \<open>[A-Za-z0-9._-]\<close>\<close>
  "fname_char c \<longleftrightarrow>
     (65 \<le> c \<and> c \<le> 90) \<or> (97 \<le> c \<and> c \<le> 122) \<or> (48 \<le> c \<and> c \<le> 57) \<or>
     c = ch CHR ''.'' \<or> c = ch CHR ''_'' \<or> c = ch CHR ''-''"

fun sanitize :: "bool \<Rightarrow> pystr \<Rightarrow> pystr" where
  \<comment> \<open>\<open>re.sub(r"[^A-Za-z0-9._-]+", "_", name)\<close>; the flag says that a run of other
      characters has begun\<close>
  "sanitize in_run [] = []"
| "sanitize in_run (c # cs) =
     (if fname_char c then c # sanitize False cs
      else if in_run then sanitize True cs
      else ch CHR ''_'' # sanitize True cs)"

definition guess_filename :: "env \<Rightarrow> pystr \<Rightarrow> headers \<Rightarrow> exn + pystr" where
  "guess_filename E u hs =
     (case urlparse E u of
        Inl e \<Rightarrow> Inl e
      | Inr p \<Rightarrow>
          let name0 = (if basename (path p) = [] then py ''download'' else basename (path p));
              cd = (case header_get hs (py ''Content-Disposition'') of
                      Some v \<Rightarrow> if v \<noteq> [] then v
                                else (case header_get hs (py ''content-disposition'') of
                                        Some w \<Rightarrow> w | None \<Rightarrow> [])
                    | None \<Rightarrow> (case header_get hs (py ''content-disposition'') of
                                 Some w \<Rightarrow> w | None \<Rightarrow> []));
              name1 = (case filename_search cd of Some g \<Rightarrow> g | None \<Rightarrow> name0)
          in Inr (sanitize False name1))"

definition extract_pdf_text :: "env \<Rightarrow> bytes \<Rightarrow> pystr" where
  "extract_pdf_text E content =
     (case pdf_extract_text E content of
        Inl e \<Rightarrow> py ''[[PDF extract failed: '' @ exn_str e @ py '']]''
      | Inr None \<Rightarrow> []
      | Inr (Some t) \<Rightarrow> t)"

definition extract_docx_text :: "env \<Rightarrow> bytes \<Rightarrow> pystr" where
  "extract_docx_text E content =
     (case docx_paragraphs E content of
        Inl e \<Rightarrow> py ''[[DOCX extract failed: '' @ exn_str e @ py '']]''
      | Inr ps \<Rightarrow> join [10] ps)"

definition clean_html_to_text :: "env \<Rightarrow> pystr \<Rightarrow> exn + (pystr \<times> pystr)" where
  "clean_html_to_text E html = readability E html"

definition html_is_article :: "pystr \<Rightarrow> bool" where
  "html_is_article t \<longleftrightarrow> 50 \<le> length (split_ws t)"

fun absolutize_all :: "env \<Rightarrow> pystr \<Rightarrow> pystr list \<Rightarrow> exn + pystr list" where
  "absolutize_all E base [] = Inr []"
| "absolutize_all E base (h # hs) =
     (case absolutize E base h of
        Inl e \<Rightarrow> Inl e
      | Inr u \<Rightarrow> (case absolutize_all E base hs of Inl e \<Rightarrow> Inl e | Inr us \<Rightarrow> Inr (u # us)))"

definition discover_links :: "env \<Rightarrow> pystr \<Rightarrow> pystr \<Rightarrow> exn + pystr list" where
  "discover_links E base_url html =
     (case absolutize_all E base_url (soup_hrefs E html) of
        Inl e \<Rightarrow> Inl e
      | Inr us \<Rightarrow> Inr (fromkeys (filter (is_allowed E) us)))"

definition fetch :: "env \<Rightarrow> nat \<Rightarrow> pystr \<Rightarrow> exn + (int \<times> pystr \<times> bytes \<times> headers)" where
  "fetch E k u =
     (case requests_get E k u of
        Inl e \<Rightarrow> Inl e
      | Inr (code, ct, content, hs) \<Rightarrow>
          Inr (code, (case ct of None \<Rightarrow> [] | Some c \<Rightarrow> c), content, hs))"

section \<open>The robots policy\<close>

text \<open>
  The part of CPython's \<open>urllib.robotparser.RobotFileParser\<close> that decides
  \<open>can_fetch\<close>: the two flags, whether \<open>last_checked\<close> has been set (\<open>parse\<close> sets it),
  and the answer of the parsed entries.
\<close>

record robots =
  disallow_all :: bool
  allow_all :: bool
  last_checked :: bool
  entries :: "pystr \<Rightarrow> exn + bool"

definition RobotFileParser :: robots where
  \<comment> \<open>a new parser: no entries, so the entries allow every URL\<close>
  "RobotFileParser =
     \<lparr>disallow_all = False, allow_all = False, last_checked = False,
      entries = (\<lambda>u. Inr True)\<rparr>"

definition robots_read :: "env \<Rightarrow> pystr \<Rightarrow> robots \<Rightarrow> exn + robots" where
  \<comment> \<open>\<open>rp.read()\<close>\<close>
  "robots_read E robots_url rp =
     (case robots_urlopen E robots_url of
        HTTPError code \<Rightarrow>
          if code = 401 \<or> code = 403 then Inr (rp\<lparr>disallow_all := True\<rparr>)
          else if 400 \<le> code \<and> code < 500 then Inr (rp\<lparr>allow_all := True\<rparr>)
          else Inr rp
      | OtherError e \<Rightarrow> Inl e
      | Body raw \<Rightarrow>
          (case decode_strict E raw of
             Inl e \<Rightarrow> Inl e
           | Inr s \<Rightarrow> Inr (rp\<lparr>last_checked := True, entries := robots_entries E s\<rparr>)))"

definition can_fetch :: "robots \<Rightarrow> pystr \<Rightarrow> exn + bool" where
  \<comment> \<open>\<open>rp.can_fetch(USER_AGENT, u)\<close>\<close>
  "can_fetch rp u =
     (if disallow_all rp then Inr False
      else if allow_all rp then Inr True
      else if \<not> last_checked rp then Inr False
      else entries rp u)"

definition get_robot_parser :: "env \<Rightarrow> pystr \<Rightarrow> exn + robots" where
  "get_robot_parser E site =
     (case urljoin E site (py ''/robots.txt'') of
        Inl e \<Rightarrow> Inl e
      | Inr robots_url \<Rightarrow>
          (case urlparse E robots_url of
             Inl e \<Rightarrow> Inl e
           | Inr p \<Rightarrow>
               (case robots_read E robots_url RobotFileParser of
                  Inl e \<Rightarrow> Inr RobotFileParser
                | Inr rp \<Rightarrow> Inr rp)))"

definition allowed_by_robots :: "robots \<Rightarrow> pystr \<Rightarrow> bool" where
  "allowed_by_robots rp u = (case can_fetch rp u of Inl e \<Rightarrow> True | Inr b \<Rightarrow> b)"

section \<open>The sitemap seeder\<close>

definition SITEMAPS :: "pystr list" where
  "SITEMAPS = [py ''https://www.deltawonen.nl/sitemap.xml'']"

definition DEFAULT_START :: "pystr list" where
  "DEFAULT_START = [py ''https://www.deltawonen.nl/'']"

definition sitemap_urls :: "env \<Rightarrow> pystr \<Rightarrow> pystr list" where
  \<comment> \<open>one turn of the loop of \<open>get_sitemap_urls\<close>; an exception leaves the list as it is\<close>
  "sitemap_urls E sm =
     (case sitemap_get E sm of
        Inl e \<Rightarrow> []
      | Inr (code, ct, locs) \<Rightarrow>
          if code = 200 \<and> contains (py ''xml'') (case ct of None \<Rightarrow> [] | Some c \<Rightarrow> c)
          then filter (is_allowed E) (map strip locs)
          else [])"

definition get_sitemap_urls :: "env \<Rightarrow> pystr list" where
  "get_sitemap_urls E = fromkeys (concat (map (sitemap_urls E) SITEMAPS))"

section \<open>Records and the state of a run\<close>

record PageItem =
  url :: pystr
  content_type :: pystr
  title :: pystr
  "text" :: pystr
  status :: int
  fetched_at :: pystr
  sha1 :: pystr
  links :: "pystr list"

record QAItem =
  question :: pystr
  answer :: pystr
  tags :: "pystr list"
  sources :: "pystr list"

record args =
  start :: "pystr list"
  max_pages :: int
  delay :: real
  include_docs :: bool

datatype event = Fetch pystr | Sleep real

text \<open>
  The state of \<open>main\<close>: the queue \<open>q\<close>, the set \<open>seen\<close>, the counter, the records that
  the run has appended to \<open>raw_pages.jsonl\<close> and to \<open>qa.jsonl\<close>, the files saved under
  the assets directory, the fetches and the sleeps in the order in which they happened,
  and the exception that ended the run, if one did. File writes are taken to succeed:
  the \<open>OSError\<close> of a write that fails and the \<open>UnicodeEncodeError\<close> that \<open>write_jsonl\<close>
  raises for a record with a lone surrogate are left out, and so are the progress bar and
  the final prints.
\<close>

record state =
  queue :: "pystr list"
  seen :: "pystr set"
  count :: nat
  raw_pages :: "PageItem list"
  qa :: "QAItem list"
  assets :: "(pystr \<times> bytes) list"
  trace :: "event list"
  crashed :: "exn option"

definition write_raw :: "PageItem \<Rightarrow> state \<Rightarrow> state" where
  \<comment> \<open>\<open>write_jsonl(RAW_JSONL, asdict(item))\<close>\<close>
  "write_raw item st = st\<lparr>raw_pages := raw_pages st @ [item]\<rparr>"

definition write_qa :: "QAItem \<Rightarrow> state \<Rightarrow> state" where
  \<comment> \<open>\<open>write_jsonl(QA_JSONL, item)\<close>\<close>
  "write_qa item st = st\<lparr>qa := qa st @ [item]\<rparr>"

definition save_asset :: "pystr \<Rightarrow> bytes \<Rightarrow> state \<Rightarrow> state" where
  "save_asset fname content st = st\<lparr>assets := assets st @ [(fname, content)]\<rparr>"

definition raise :: "exn \<Rightarrow> state \<Rightarrow> state" where
  \<comment> \<open>an exception that nothing catches ends the run\<close>
  "raise e st = st\<lparr>crashed := Some e\<rparr>"

definition page_done :: "env \<Rightarrow> args \<Rightarrow> state \<Rightarrow> state" where
  \<comment> \<open>the end of the loop body: \<open>count += 1\<close> and \<open>time.sleep(args.delay)\<close>, whose exception
      nothing catches\<close>
  "page_done E A st =
     (let st1 = st\<lparr>count := Suc (count st)\<rparr>
      in case time_sleep E (delay A) of
           Some e \<Rightarrow> raise e st1
         | None \<Rightarrow> st1\<lparr>trace := trace st1 @ [Sleep (delay A)]\<rparr>)"

section \<open>The crawl loop\<close>

definition html_page ::
  "env \<Rightarrow> args \<Rightarrow> robots \<Rightarrow> pystr \<Rightarrow> int \<Rightarrow> bytes \<Rightarrow> pystr \<Rightarrow> state \<Rightarrow> state" where
  "html_page E A rp u code content ts st =
     (let html = decode_ignore E content
      in case clean_html_to_text E html of
           Inl e \<Rightarrow> raise e st
         | Inr (ttl, txt0) \<Rightarrow>
             (let txt = (if \<not> html_is_article txt0 then soup_get_text E html else txt0)
              in case discover_links E u html of
                   Inl e \<Rightarrow> raise e st
                 | Inr lks \<Rightarrow>
                     (let st1 = st\<lparr>queue := queue st @
                                  filter (\<lambda>u2. u2 \<notin> seen st \<and> is_allowed E u2 \<and>
                                                allowed_by_robots rp u2) lks\<rparr>;
                          st2 = write_raw
                                  \<lparr>url = u, content_type = py ''html'', title = ttl,
                                   text = txt, status = code, fetched_at = ts,
                                   sha1 = sha1_text txt, links = lks\<rparr> st1;
                          st3 = (if ttl \<noteq> [] \<and> txt \<noteq> []
                                 then write_qa
                                        \<lparr>question = ttl, answer = summarize txt 1000,
                                         tags = [py ''deltawonen'', py ''html''],
                                         sources = [u]\<rparr> st2
                                 else st2)
                      in page_done E A st3)))"

definition pdf_page ::
  "env \<Rightarrow> args \<Rightarrow> pystr \<Rightarrow> int \<Rightarrow> bytes \<Rightarrow> headers \<Rightarrow> pystr \<Rightarrow> state \<Rightarrow> state" where
  "pdf_page E A u code content hs ts st =
     (case guess_filename E u hs of
        Inl e \<Rightarrow> raise e st
      | Inr fname \<Rightarrow>
          (let st1 = save_asset fname content st;
               txt = extract_pdf_text E content;
               st2 = write_raw
                       \<lparr>url = u, content_type = py ''pdf'', title = fname, text = txt,
                        status = code, fetched_at = ts, sha1 = sha1_text txt, links = []\<rparr> st1;
               st3 = write_qa
                       \<lparr>question = strip (replace (py ''_'') (py '' '')
                                      (replace (py ''.pdf'') [] fname)),
                        answer = summarize txt 1000,
                        tags = [py ''deltawonen'', py ''pdf''],
                        sources = [u]\<rparr> st2
           in page_done E A st3))"

definition docx_page ::
  "env \<Rightarrow> args \<Rightarrow> pystr \<Rightarrow> int \<Rightarrow> bytes \<Rightarrow> headers \<Rightarrow> pystr \<Rightarrow> state \<Rightarrow> state" where
  "docx_page E A u code content hs ts st =
     (case guess_filename E u hs of
        Inl e \<Rightarrow> raise e st
      | Inr fname \<Rightarrow>
          (let st1 = save_asset fname content st;
               txt = extract_docx_text E content;
               st2 = write_raw
                       \<lparr>url = u, content_type = py ''docx'', title = fname, text = txt,
                        status = code, fetched_at = ts, sha1 = sha1_text txt, links = []\<rparr> st1;
               st3 = write_qa
                       \<lparr>question = strip (replace (py ''_'') (py '' '')
                                      (replace (py ''.docx'') [] fname)),
                        answer = summarize txt 1000,
                        tags = [py ''deltawonen'', py ''docx''],
                        sources = [u]\<rparr> st2
           in page_done E A st3))"

definition other_page ::
  "env \<Rightarrow> args \<Rightarrow> pystr \<Rightarrow> int \<Rightarrow> pystr \<Rightarrow> bytes \<Rightarrow> headers \<Rightarrow> pystr \<Rightarrow> state \<Rightarrow> state" where
  "other_page E A u code ctype_low content hs ts st =
     (let item = \<lparr>url = u, content_type = ctype_low, title = [], text = [], status = code,
                  fetched_at = ts, sha1 = [], links = []\<rparr>
      in if include_docs A \<and> rx_search office_rx u
         then (case guess_filename E u hs of
                 Inl e \<Rightarrow> raise e st
               | Inr fname \<Rightarrow> page_done E A (write_raw item (save_asset fname content st)))
         else page_done E A (write_raw item st))"

definition http_error_page :: "env \<Rightarrow> args \<Rightarrow> pystr \<Rightarrow> int \<Rightarrow> pystr \<Rightarrow> state \<Rightarrow> state" where
  \<comment> \<open>the \<open>else\<close> branch of \<open>if status==200\<close>\<close>
  "http_error_page E A u code ts st =
     page_done E A
       (write_raw \<lparr>url = u, content_type = py ''error'', title = [],
                   text = py ''HTTP '' @ str_int code, status = code, fetched_at = ts,
                   sha1 = [], links = []\<rparr> st)"

definition fetch_error_page :: "pystr \<Rightarrow> exn \<Rightarrow> pystr \<Rightarrow> state \<Rightarrow> state" where
  \<comment> \<open>the \<open>except\<close> branch around \<open>fetch\<close>, which ends in \<open>continue\<close>\<close>
  "fetch_error_page u e ts st =
     write_raw \<lparr>url = u, content_type = py ''error'', title = [],
                 text = py ''[[FETCH ERROR: '' @ exn_str e @ py '']]'', status = 0,
                 fetched_at = ts, sha1 = [], links = []\<rparr> st"

definition DOCX_TYPE :: pystr where
  "DOCX_TYPE = py ''application/vnd.openxmlformats-officedocument.wordprocessingml.document''"

definition visit :: "env \<Rightarrow> args \<Rightarrow> robots \<Rightarrow> pystr \<Rightarrow> state \<Rightarrow> state" where
  \<comment> \<open>the loop body after \<open>seen.add(url)\<close>\<close>
  "visit E A rp u st =
     (let k = length (raw_pages st);
          st0 = st\<lparr>trace := trace st @ [Fetch u]\<rparr>
      in case fetch E k u of
           Inl e \<Rightarrow> fetch_error_page u e (utcnow E k) st0
         | Inr (code, ctype, content, hs) \<Rightarrow>
             (let ts = utcnow E k;
                  ctype_low = lower ctype
              in if code = 200 then
                   if contains (py ''text/html'') ctype_low
                   then html_page E A rp u code content ts st0
                   else if contains (py ''application/pdf'') ctype_low \<or>
                           endswith (lower u) (py ''.pdf'')
                   then pdf_page E A u code content hs ts st0
                   else if contains DOCX_TYPE ctype_low \<or> endswith (lower u) (py ''.docx'')
                   then docx_page E A u code content hs ts st0
                   else other_page E A u code ctype_low content hs ts st0
                 else http_error_page E A u code ts st0))"

function crawl_loop :: "env \<Rightarrow> args \<Rightarrow> robots \<Rightarrow> state \<Rightarrow> state" where
  "crawl_loop E A rp st =
     (if queue st \<noteq> [] \<and> int (count st) < max_pages A \<and> crashed st = None then
        (if hd (queue st) \<in> seen st
         then crawl_loop E A rp (st\<lparr>queue := tl (queue st)\<rparr>)
         else crawl_loop E A rp
                (visit E A rp (hd (queue st))
                   (st\<lparr>queue := tl (queue st), seen := insert (hd (queue st)) (seen st)\<rparr>)))
      else st)"
  by pat_completeness auto
termination
proof (relation "inv_image (less_than <*lex*> less_than <*lex*> less_than)
         (\<lambda>(E, A, rp, st). (if crashed st = None then 1 :: nat else 0,
                              nat (max_pages A - int (count st)), length (queue st)))",
       goal_cases)
  case 1
  show ?case by (intro wf_inv_image wf_lex_prod wf_less_than)
next
  case (2 E A rp st)
  then show ?case by (cases "queue st") auto
next
  case (3 E A rp st)
  let ?u = "hd (queue st)"
  let ?s0 = "st\<lparr>queue := tl (queue st), seen := insert ?u (seen st),
                trace := trace st @ [Fetch ?u]\<rparr>"
  define P where "P x \<longleftrightarrow> crashed (x :: state) \<noteq> None \<or> count x = Suc (count st) \<or>
                        (count x = count st \<and> queue x = tl (queue st))" for x :: state
  have html: "P (html_page E A rp ?u c b t ?s0)" for c b t
    unfolding P_def
    by (simp add: html_page_def Let_def write_raw_def write_qa_def raise_def page_done_def
          split: sum.split prod.split option.split)
  have pdf: "P (pdf_page E A ?u c b h t ?s0)" for c b h t
    unfolding P_def
    by (simp add: pdf_page_def Let_def write_raw_def write_qa_def save_asset_def raise_def
          page_done_def split: sum.split option.split)
  have docx: "P (docx_page E A ?u c b h t ?s0)" for c b h t
    unfolding P_def
    by (simp add: docx_page_def Let_def write_raw_def write_qa_def save_asset_def raise_def
          page_done_def split: sum.split option.split)
  have other: "P (other_page E A ?u c l b h t ?s0)" for c l b h t
    unfolding P_def
    by (simp add: other_page_def Let_def write_raw_def save_asset_def raise_def page_done_def
          split: sum.split option.split)
  have err: "P (http_error_page E A ?u c t ?s0)" for c t
    unfolding P_def
    by (simp add: http_error_page_def write_raw_def raise_def page_done_def Let_def
          split: option.split)
  have fail: "P (fetch_error_page ?u e t ?s0)" for e t
    unfolding P_def by (simp add: fetch_error_page_def write_raw_def)
  have "P (visit E A rp ?u (st\<lparr>queue := tl (queue st), seen := insert ?u (seen st)\<rparr>))"
    unfolding visit_def Let_def
    by (simp add: html pdf docx other err fail split: sum.split prod.split)
  with 3 show ?case unfolding P_def by (cases "queue st") auto
qed

declare crawl_loop.simps [simp del]

definition init_state :: state where
  "init_state =
     \<lparr>queue = [], seen = {}, count = 0, raw_pages = [], qa = [], assets = [], trace = [],
      crashed = None\<rparr>"

definition seeds :: "env \<Rightarrow> args \<Rightarrow> robots \<Rightarrow> pystr list" where
  \<comment> \<open>the queue after the seeding loop\<close>
  "seeds E A rp =
     filter (\<lambda>u. is_allowed E u \<and> allowed_by_robots rp u) (get_sitemap_urls E @ start A)"

definition main :: "env \<Rightarrow> args \<Rightarrow> state" where
  \<comment> \<open>\<open>args.start[0]\<close> raises IndexError when \<open>--start\<close> is given without a URL\<close>
  "main E A =
     (case start A of
        [] \<Rightarrow> raise (Exn (py ''IndexError'') (py ''list index out of range'')) init_state
      | start0 # others \<Rightarrow>
          (case get_robot_parser E start0 of
             Inl e \<Rightarrow> raise e init_state
           | Inr rp \<Rightarrow> crawl_loop E A rp (init_state\<lparr>queue := seeds E A rp\<rparr>)))"

section \<open>An example environment\<close>

text \<open>
  A site that is down: every request fails. The examples below change single fields.
\<close>

definition offline :: env where
  "offline =
     \<lparr>requests_get = (\<lambda>k u. Inl (Exn (py ''ConnectionError'') (py ''down''))),
      utcnow = (\<lambda>k. py ''2025-01-01T00:00:00''),
      decode_ignore = (\<lambda>b. b),
      readability = (\<lambda>h. Inr ([], [])),
      soup_get_text = (\<lambda>h. []),
      soup_hrefs = (\<lambda>h. []),
      urljoin = (\<lambda>b h. Inr h),
      pdf_extract_text = (\<lambda>b. Inr None),
      docx_paragraphs = (\<lambda>b. Inr []),
      sitemap_get = (\<lambda>u. Inl (Exn (py ''ConnectionError'') (py ''down''))),
      robots_urlopen = (\<lambda>u. OtherError (Exn (py ''URLError'') (py ''down''))),
      decode_strict = (\<lambda>b. Inr b),
      robots_entries = (\<lambda>b u. Inr True),
      nfkc = (\<lambda>s. s),
      check_bracketed_host = (\<lambda>h. None),
      time_sleep = (\<lambda>d. if d < 0
                         then Some (Exn (py ''ValueError'') (py ''sleep length must be non-negative''))
                         else None)\<rparr>"

definition default_args :: args where
  \<comment> \<open>the defaults of the argument parser\<close>
  "default_args = \<lparr>start = DEFAULT_START, max_pages = 3000, delay = 3 / 2, include_docs = False\<rparr>"

definition home :: pystr where
  "home = py ''https://www.deltawonen.nl/''"

definition page_a :: pystr where
  "page_a = py ''https://www.deltawonen.nl/a''"

definition open_robots :: robots where
  \<comment> \<open>the parser after a robots.txt without rules has been read\<close>
  "open_robots = RobotFileParser\<lparr>last_checked := True\<rparr>"

definition site_404 :: env where
  "site_404 = offline\<lparr>requests_get := (\<lambda>k u. Inr (404, Some (py ''text/html''), [], []))\<rparr>"

definition flaky_site :: env where
  \<comment> \<open>the request for the home page fails; every other page answers 404\<close>
  "flaky_site = offline\<lparr>requests_get :=
     (\<lambda>k u. if u = home then Inl (Exn (py ''ConnectionError'') (py ''down''))
            else Inr (404, None, [], []))\<rparr>"

definition doc_a :: pystr where
  "doc_a = py ''https://www.deltawonen.nl/a.pdf''"

definition scanned_pdf_site :: env where
  \<comment> \<open>every page is a PDF from which pdfminer extracts the empty string\<close>
  "scanned_pdf_site = offline\<lparr>
     requests_get := (\<lambda>k u. Inr (200, Some (py ''application/pdf''), [37, 80, 68, 70], [])),
     pdf_extract_text := (\<lambda>b. Inr (Some []))\<rparr>"

fun fetched :: "event list \<Rightarrow> pystr list" where
  \<comment> \<open>the URLs fetched, in order\<close>
  "fetched [] = []"
| "fetched (Fetch u # es) = u # fetched es"
| "fetched (Sleep d # es) = fetched es"

definition hash_ok :: "PageItem \<Rightarrow> bool" where
  \<comment> \<open>the hash is the digest of the text, or it is empty in a record that is an error
      record or has no text\<close>
  "hash_ok r \<longleftrightarrow>
     sha1 r = sha1_text (text r) \<or>
     (sha1 r = [] \<and> (content_type r = py ''error'' \<or> text r = []))"

definition crawl_inv :: "state \<Rightarrow> bool" where
  \<comment> \<open>the invariant of the loop: no URL has two page records or two fetches, every URL
      with a record or a fetch is in \<open>seen\<close>, and every record has its hash\<close>
  "crawl_inv st \<longleftrightarrow>
     distinct (map url (raw_pages st)) \<and> url ` set (raw_pages st) \<subseteq> seen st \<and>
     distinct (fetched (trace st)) \<and> set (fetched (trace st)) \<subseteq> seen st \<and>
     list_all hash_ok (raw_pages st)"

definition blank_html_site :: env where
  \<comment> \<open>every page is an HTML document with a title and no text\<close>
  "blank_html_site = offline\<lparr>
     requests_get := (\<lambda>k u. Inr (200, Some (py ''text/html; charset=utf-8''), [], [])),
     readability := (\<lambda>h. Inr (py ''Delta Wonen'', []))\<rparr>"

definition one_record :: "pystr \<Rightarrow> state \<Rightarrow> state \<Rightarrow> bool" where
  \<comment> \<open>from the first state to the second, at most one record was written, for the URL\<close>
  "one_record u st st' \<longleftrightarrow>
     seen st' = seen st \<and> fetched (trace st') = fetched (trace st) \<and>
     (raw_pages st' = raw_pages st \<or>
      (\<exists>r. raw_pages st' = raw_pages st @ [r] \<and> url r = u \<and> hash_ok r))"

definition blank_html_open :: env where
  \<comment> \<open>the site of blank pages, with a robots.txt that has no rules\<close>
  "blank_html_open = blank_html_site\<lparr>robots_urlopen := (\<lambda>u. Body [])\<rparr>"

definition blank_record :: PageItem where
  "blank_record =
     \<lparr>url = home, content_type = py ''html'', title = py ''Delta Wonen'', text = [],
      status = 200, fetched_at = py ''2025-01-01T00:00:00'', sha1 = sha1_text [], links = []\<rparr>"

definition page_b :: pystr where
  "page_b = py ''https://www.deltawonen.nl/b''"

definition linked_site :: env where
  \<comment> \<open>the sitemap lists the home page, and every page is an HTML document with one link,
      to the page b\<close>
  "linked_site = blank_html_site\<lparr>
     soup_hrefs := (\<lambda>h. [page_b]),
     sitemap_get := (\<lambda>u. Inr (200, Some (py ''application/xml''), [home]))\<rparr>"

section \<open>The words of the scope property\<close>

text \<open>
  The host of a URL is the \<open>hostname\<close> attribute of urllib's parse result: the netloc
  without the user information and the port, in lower case. A path ends in a static-asset
  extension when its last characters are a dot and one of the extensions of the denylist,
  compared as the pattern compares them (without regard to case).
\<close>

definition hostname :: "pystr \<Rightarrow> pystr" where
  "hostname nl =
     (let hostinfo = rev (takeWhile (\<lambda>c. c \<noteq> ch CHR ''@'') (rev nl));
          host = (if ch CHR ''['' \<in> set hostinfo
                  then takeWhile (\<lambda>c. c \<noteq> ch CHR '']'')
                         (drop 1 (dropWhile (\<lambda>c. c \<noteq> ch CHR ''['') hostinfo))
                  else takeWhile (\<lambda>c. c \<noteq> ch CHR '':'') hostinfo)
      in lower (takeWhile (\<lambda>c. c \<noteq> ch CHR ''%'') host) @
         dropWhile (\<lambda>c. c \<noteq> ch CHR ''%'') host)"

definition ci_match :: "pystr \<Rightarrow> string \<Rightarrow> bool" where
  \<comment> \<open>the string is the word, character by character, up to case\<close>
  "ci_match m w \<longleftrightarrow> list_all2 (\<lambda>c p. c \<in> set (ci_chars (of_char p))) m w"

definition asset_extensions :: "string list" where
  "asset_extensions =
     [''jpg'', ''jpeg'', ''png'', ''gif'', ''svg'', ''webp'', ''ico'', ''css'', ''js'', ''woff'',
      ''woff2'', ''ttf'', ''eot'', ''mp4'', ''webm'', ''zip'', ''rar'']"

definition ends_in_asset_extension :: "pystr \<Rightarrow> bool" where
  "ends_in_asset_extension p \<longleftrightarrow>
     list_ex (\<lambda>e. Suc (length e) \<le> length p \<and>
                  ci_match (drop (length p - Suc (length e)) p) (CHR ''.'' # e))
       asset_extensions"

definition with_port :: pystr where
  "with_port = py ''https://www.deltawonen.nl:443/''"

section \<open>The loop body\<close>

lemma write_raw_fields [simp]:
  "queue (write_raw i st) = queue st"
  "seen (write_raw i st) = seen st"
  "count (write_raw i st) = count st"
  "raw_pages (write_raw i st) = raw_pages st @ [i]"
  "qa (write_raw i st) = qa st"
  "assets (write_raw i st) = assets st"
  "trace (write_raw i st) = trace st"
  "crashed (write_raw i st) = crashed st"
  by (simp_all add: write_raw_def)

lemma write_qa_fields [simp]:
  "queue (write_qa i st) = queue st"
  "seen (write_qa i st) = seen st"
  "count (write_qa i st) = count st"
  "raw_pages (write_qa i st) = raw_pages st"
  "qa (write_qa i st) = qa st @ [i]"
  "assets (write_qa i st) = assets st"
  "trace (write_qa i st) = trace st"
  "crashed (write_qa i st) = crashed st"
  by (simp_all add: write_qa_def)

lemma save_asset_fields [simp]:
  "queue (save_asset f c st) = queue st"
  "seen (save_asset f c st) = seen st"
  "count (save_asset f c st) = count st"
  "raw_pages (save_asset f c st) = raw_pages st"
  "qa (save_asset f c st) = qa st"
  "assets (save_asset f c st) = assets st @ [(f, c)]"
  "trace (save_asset f c st) = trace st"
  "crashed (save_asset f c st) = crashed st"
  by (simp_all add: save_asset_def)

lemma raise_fields [simp]:
  "queue (raise e st) = queue st"
  "seen (raise e st) = seen st"
  "count (raise e st) = count st"
  "raw_pages (raise e st) = raw_pages st"
  "qa (raise e st) = qa st"
  "assets (raise e st) = assets st"
  "trace (raise e st) = trace st"
  "crashed (raise e st) = Some e"
  by (simp_all add: raise_def)

lemma page_done_fields [simp]:
  "queue (page_done E A st) = queue st"
  "seen (page_done E A st) = seen st"
  "count (page_done E A st) = Suc (count st)"
  "raw_pages (page_done E A st) = raw_pages st"
  "qa (page_done E A st) = qa st"
  "assets (page_done E A st) = assets st"
  "trace (page_done E A st) =
     (if time_sleep E (delay A) = None then trace st @ [Sleep (delay A)] else trace st)"
  "crashed (page_done E A st) =
     (case time_sleep E (delay A) of Some e \<Rightarrow> Some e | None \<Rightarrow> crashed st)"
  by (simp_all add: page_done_def Let_def split: option.split)

lemma http_error_page_fields [simp]:
  "queue (http_error_page E A u code ts st) = queue st"
  "seen (http_error_page E A u code ts st) = seen st"
  "count (http_error_page E A u code ts st) = Suc (count st)"
  "qa (http_error_page E A u code ts st) = qa st"
  "assets (http_error_page E A u code ts st) = assets st"
  by (simp_all add: http_error_page_def)

lemma fetch_error_page_fields [simp]:
  "queue (fetch_error_page u e ts st) = queue st"
  "seen (fetch_error_page u e ts st) = seen st"
  "count (fetch_error_page u e ts st) = count st"
  "qa (fetch_error_page u e ts st) = qa st"
  "assets (fetch_error_page u e ts st) = assets st"
  "trace (fetch_error_page u e ts st) = trace st"
  "crashed (fetch_error_page u e ts st) = crashed st"
  by (simp_all add: fetch_error_page_def)

text \<open>
  The six ways in which the loop body ends, by the outcome of the fetch. \<open>visit_cases\<close>
  is how every property of the body is proved below.
\<close>

lemma visit_cases:
  obtains
    (fetch_error) e where "fetch E (length (raw_pages st)) u = Inl e"
      "visit E A rp u st =
         fetch_error_page u e (utcnow E (length (raw_pages st)))
           (st\<lparr>trace := trace st @ [Fetch u]\<rparr>)"
  | (html) code ctype content hs where
      "fetch E (length (raw_pages st)) u = Inr (code, ctype, content, hs)" "code = 200"
      "contains (py ''text/html'') (lower ctype)"
      "visit E A rp u st =
         html_page E A rp u code content (utcnow E (length (raw_pages st)))
           (st\<lparr>trace := trace st @ [Fetch u]\<rparr>)"
  | (pdf) code ctype content hs where
      "fetch E (length (raw_pages st)) u = Inr (code, ctype, content, hs)" "code = 200"
      "\<not> contains (py ''text/html'') (lower ctype)"
      "contains (py ''application/pdf'') (lower ctype) \<or> endswith (lower u) (py ''.pdf'')"
      "visit E A rp u st =
         pdf_page E A u code content hs (utcnow E (length (raw_pages st)))
           (st\<lparr>trace := trace st @ [Fetch u]\<rparr>)"
  | (docx) code ctype content hs where
      "fetch E (length (raw_pages st)) u = Inr (code, ctype, content, hs)" "code = 200"
      "\<not> contains (py ''text/html'') (lower ctype)"
      "\<not> (contains (py ''application/pdf'') (lower ctype) \<or> endswith (lower u) (py ''.pdf''))"
      "contains DOCX_TYPE (lower ctype) \<or> endswith (lower u) (py ''.docx'')"
      "visit E A rp u st =
         docx_page E A u code content hs (utcnow E (length (raw_pages st)))
           (st\<lparr>trace := trace st @ [Fetch u]\<rparr>)"
  | (other) code ctype content hs where
      "fetch E (length (raw_pages st)) u = Inr (code, ctype, content, hs)" "code = 200"
      "\<not> contains (py ''text/html'') (lower ctype)"
      "\<not> (contains (py ''application/pdf'') (lower ctype) \<or> endswith (lower u) (py ''.pdf''))"
      "\<not> (contains DOCX_TYPE (lower ctype) \<or> endswith (lower u) (py ''.docx''))"
      "visit E A rp u st =
         other_page E A u code (lower ctype) content hs (utcnow E (length (raw_pages st)))
           (st\<lparr>trace := trace st @ [Fetch u]\<rparr>)"
  | (http_error) code ctype content hs where
      "fetch E (length (raw_pages st)) u = Inr (code, ctype, content, hs)" "code \<noteq> 200"
      "visit E A rp u st =
         http_error_page E A u code (utcnow E (length (raw_pages st)))
           (st\<lparr>trace := trace st @ [Fetch u]\<rparr>)"
proof (cases "fetch E (length (raw_pages st)) u")
  case (Inl e)
  then show ?thesis using fetch_error by (simp add: visit_def Let_def)
next
  case (Inr r)
  obtain code ctype content hs where r: "r = (code, ctype, content, hs)"
    by (cases r) auto
  have f: "fetch E (length (raw_pages st)) u = Inr (code, ctype, content, hs)"
    using Inr r by simp
  show ?thesis
  proof (cases "code = 200")
    case False
    then have "visit E A rp u st =
         http_error_page E A u code (utcnow E (length (raw_pages st)))
           (st\<lparr>trace := trace st @ [Fetch u]\<rparr>)"
      by (simp add: visit_def Let_def f)
    then show ?thesis using http_error [OF f False] by blast
  next
    case c: True
    show ?thesis
    proof (cases "contains (py ''text/html'') (lower ctype)")
      case True
      then have "visit E A rp u st =
         html_page E A rp u code content (utcnow E (length (raw_pages st)))
           (st\<lparr>trace := trace st @ [Fetch u]\<rparr>)"
        by (simp add: visit_def Let_def f c)
      then show ?thesis using html [OF f c True] by blast
    next
      case nh: False
      show ?thesis
      proof (cases "contains (py ''application/pdf'') (lower ctype) \<or>
                    endswith (lower u) (py ''.pdf'')")
        case True
        then have "visit E A rp u st =
           pdf_page E A u code content hs (utcnow E (length (raw_pages st)))
             (st\<lparr>trace := trace st @ [Fetch u]\<rparr>)"
          using nh by (simp add: visit_def Let_def f c)
        then show ?thesis using pdf [OF f c nh True] by blast
      next
        case np: False
        show ?thesis
        proof (cases "contains DOCX_TYPE (lower ctype) \<or> endswith (lower u) (py ''.docx'')")
          case True
          then have "visit E A rp u st =
             docx_page E A u code content hs (utcnow E (length (raw_pages st)))
               (st\<lparr>trace := trace st @ [Fetch u]\<rparr>)"
            using nh np by (simp add: visit_def Let_def f c)
          then show ?thesis using docx [OF f c nh np True] by blast
        next
          case False
          then have "visit E A rp u st =
             other_page E A u code (lower ctype) content hs (utcnow E (length (raw_pages st)))
               (st\<lparr>trace := trace st @ [Fetch u]\<rparr>)"
            using nh np by (simp add: visit_def Let_def f c)
          then show ?thesis using other [OF f c nh np False] by blast
        qed
      qed
    qed
  qed
qed

section \<open>Properties of \<open>summarize\<close>\<close>

lemma length_join_split_acc:
  "length (join [32] (split_acc cur s)) \<le> length cur + length s"
proof (induction s arbitrary: cur)
  case Nil
  show ?case by simp
next
  case (Cons c cs)
  show ?case
  proof (cases "isspace c")
    case False
    then show ?thesis using Cons.IH [of "cur @ [c]"] by simp
  next
    case sp: True
    show ?thesis
    proof (cases "cur = []")
      case True
      then show ?thesis using sp Cons.IH [of "[]"] by simp
    next
      case False
      then show ?thesis using sp Cons.IH [of "[]"]
        by (cases "split_acc [] cs") simp_all
    qed
  qed
qed

lemma length_summarize_txt: "length (summarize_txt t) \<le> length t"
  using length_join_split_acc [of "[]" t] by (simp add: summarize_txt_def split_ws_def)

lemma split_acc_spaces: "split_acc cur (replicate n 32 @ s) =
  (if n = 0 then split_acc cur s else if cur = [] then split_acc [] s else cur # split_acc [] s)"
  by (induction n arbitrary: cur) (simp_all add: isspace_def)

lemma summarize_txt_sparse: "summarize_txt sparse_text = py ''a b''"
proof -
  have "split_acc [] sparse_text = split_acc [97] (replicate 1000 32 @ [98])"
    by (simp add: sparse_text_def ch_def isspace_def)
  also have "\<dots> = [[97], [98]]"
    by (simp add: split_acc_spaces isspace_def)
  finally show ?thesis
    by (simp add: summarize_txt_def split_ws_def py_def)
qed

text \<open>
  C9, as stated, at a text of 1002 characters: the text is longer than \<open>max_chars = 1000\<close>,
  yet the answer is the three characters \<open>a b\<close> and carries no marker.
\<close>

theorem summarize_marker_counterexample:
  "1000 < int (length sparse_text) \<and> summarize sparse_text 1000 = py ''a b'' \<and>
   ellipsis \<notin> set (summarize sparse_text 1000)"
proof -
  have "summarize sparse_text 1000 = py ''a b''"
    by (simp add: summarize_def summarize_txt_sparse slice_to_def) (simp add: py_def)
  moreover have "ellipsis \<notin> set (py ''a b'')"
    by (simp add: py_def ellipsis_def)
  ultimately show ?thesis by (simp add: sparse_text_def)
qed

text \<open>
  C9, amended: for a bound \<open>max_chars \<ge> 0\<close> (the crawler passes 1000) the answer has at most
  \<open>max_chars + 1\<close> characters; it is the first \<open>max_chars\<close> characters of the
  whitespace-normalised text followed by the marker when the normalised text is longer
  than \<open>max_chars\<close>, and the normalised text itself otherwise. So the answer has
  \<open>max_chars + 1\<close> characters ending in the marker exactly when the normalised text
  exceeds \<open>max_chars\<close>, and then the source text exceeds it too.
\<close>

theorem summarize_truncation:
  assumes "0 \<le> m"
  shows "length (summarize t m) \<le> nat m + 1 \<and>
     summarize t m =
       (if m < int (length (summarize_txt t)) then take (nat m) (summarize_txt t) @ [ellipsis]
        else summarize_txt t) \<and>
     ((length (summarize t m) = nat m + 1 \<and> last (summarize t m) = ellipsis)
        = (m < int (length (summarize_txt t)))) \<and>
     (m < int (length (summarize_txt t)) \<longrightarrow> m < int (length t))"
proof (cases "m < int (length (summarize_txt t))")
  case True
  then have eq: "summarize t m = take (nat m) (summarize_txt t) @ [ellipsis]"
    using assms by (simp add: summarize_def slice_to_def Let_def)
  have "nat m < length (summarize_txt t)" using True assms by linarith
  then have len: "length (summarize t m) = nat m + 1" by (simp add: eq)
  have "m < int (length t)" using True length_summarize_txt [of t] by linarith
  then show ?thesis using True eq len by simp
next
  case False
  then have eq: "summarize t m = summarize_txt t"
    using assms by (simp add: summarize_def slice_to_def Let_def)
  have len: "length (summarize_txt t) \<le> nat m" using False assms by linarith
  show ?thesis using False eq len by simp
qed

theorem summarize_truncation_witness:
  "(0::int) \<le> 3 \<and> length (summarize (py ''ab   cde'') 3) \<le> nat 3 + 1 \<and>
   summarize (py ''ab   cde'') 3 = py ''ab '' @ [ellipsis] \<and>
   summarize (py ''a  b'') 3 = py ''a b''"
proof -
  have t: "summarize_txt (py ''ab   cde'') = py ''ab cde''"
    by (simp add: summarize_txt_def split_ws_def py_def isspace_def)
  have u: "summarize_txt (py ''a  b'') = py ''a b''"
    by (simp add: summarize_txt_def split_ws_def py_def isspace_def)
  have h: "(0::int) \<le> 3" by simp
  show ?thesis
    using summarize_truncation [OF h, of "py ''ab   cde''"]
      summarize_truncation [OF h, of "py ''a  b''"]
    by (simp add: t u) (simp add: py_def)
qed

section \<open>The steps of the loop\<close>

lemma crawl_loop_stop:
  "queue st = [] \<or> \<not> int (count st) < max_pages A \<or> crashed st \<noteq> None \<Longrightarrow>
   crawl_loop E A rp st = st"
  by (subst crawl_loop.simps) auto

lemma crawl_loop_skip:
  "queue st = u # rest \<Longrightarrow> u \<in> seen st \<Longrightarrow> int (count st) < max_pages A \<Longrightarrow>
   crashed st = None \<Longrightarrow>
   crawl_loop E A rp st = crawl_loop E A rp (st\<lparr>queue := rest\<rparr>)"
  by (subst crawl_loop.simps) simp

lemma crawl_loop_visit:
  "queue st = u # rest \<Longrightarrow> u \<notin> seen st \<Longrightarrow> int (count st) < max_pages A \<Longrightarrow>
   crashed st = None \<Longrightarrow>
   crawl_loop E A rp st =
     crawl_loop E A rp (visit E A rp u (st\<lparr>queue := rest, seen := insert u (seen st)\<rparr>))"
  by (subst crawl_loop.simps) simp

lemma visit_fetch_error:
  "fetch E (length (raw_pages st)) u = Inl e \<Longrightarrow>
   visit E A rp u st =
     st\<lparr>raw_pages := raw_pages st @
            [\<lparr>url = u, content_type = py ''error'', title = [],
              text = py ''[[FETCH ERROR: '' @ exn_str e @ py '']]'', status = 0,
              fetched_at = utcnow E (length (raw_pages st)), sha1 = [], links = []\<rparr>],
        trace := trace st @ [Fetch u]\<rparr>"
  by (simp add: visit_def Let_def fetch_error_page_def write_raw_def)

lemma fetch_offline: "fetch offline k u = Inl (Exn (py ''ConnectionError'') (py ''down''))"
  by (simp add: fetch_def offline_def)

section \<open>Pages that do not return status 200\<close>

lemma visit_http_error:
  "fetch E (length (raw_pages st)) u = Inr (code, ctype, content, hs) \<Longrightarrow> code \<noteq> 200 \<Longrightarrow>
   visit E A rp u st =
     page_done E A
       (st\<lparr>raw_pages := raw_pages st @
              [\<lparr>url = u, content_type = py ''error'', title = [],
                text = py ''HTTP '' @ str_int code, status = code,
                fetched_at = utcnow E (length (raw_pages st)), sha1 = [], links = []\<rparr>],
           trace := trace st @ [Fetch u]\<rparr>)"
  by (simp add: visit_def Let_def http_error_page_def write_raw_def;
      rule arg_cong [where f = "page_done E A"]; simp)

lemma str_int_404: "str_int 404 = py ''404''"
  by (simp add: str_int_def digits.simps [of 404] digits.simps [of 40] digits.simps [of 4] py_def)

lemma fetch_site_404: "fetch site_404 k u = Inr (404, py ''text/html'', [], [])"
  by (simp add: fetch_def site_404_def)

text \<open>
  C6, as stated, at a page that answers 404 with the header \<open>Content-Type: text/html\<close>:
  the record's \<open>content_type\<close> is \<open>error\<close>, not the header.
\<close>

theorem http_error_content_type_counterexample:
  "fetch site_404 0 home = Inr (404, py ''text/html'', [], []) \<and>
   map content_type (raw_pages (visit site_404 default_args open_robots home init_state))
     = [py ''error''] \<and>
   py ''error'' \<noteq> py ''text/html''"
proof -
  have "fetch site_404 (length (raw_pages init_state)) home = Inr (404, py ''text/html'', [], [])"
    by (rule fetch_site_404)
  from visit_http_error [OF this, of default_args open_robots]
  show ?thesis by (simp add: init_state_def fetch_site_404) (simp add: py_def)
qed

text \<open>
  C6, amended: a fetch that returns a status other than 200 writes exactly one record,
  with that status, \<open>content_type = "error"\<close>, the text \<open>HTTP <status>\<close>, an empty
  title, hash and link list; it writes no QA record and leaves the queue as it is.
\<close>

theorem http_error_record:
  assumes "fetch E (length (raw_pages st)) u = Inr (code, ctype, content, hs)"
    and "code \<noteq> 200"
  shows "raw_pages (visit E A rp u st) =
           raw_pages st @
             [\<lparr>url = u, content_type = py ''error'', title = [],
               text = py ''HTTP '' @ str_int code, status = code,
               fetched_at = utcnow E (length (raw_pages st)), sha1 = [], links = []\<rparr>] \<and>
         qa (visit E A rp u st) = qa st \<and>
         queue (visit E A rp u st) = queue st"
  using visit_http_error [OF assms, of A rp] by simp

theorem http_error_record_witness:
  "fetch site_404 (length (raw_pages init_state)) home = Inr (404, py ''text/html'', [], []) \<and>
   (404 :: int) \<noteq> 200 \<and>
   raw_pages (visit site_404 default_args open_robots home init_state) =
     [\<lparr>url = home, content_type = py ''error'', title = [], text = py ''HTTP 404'',
       status = 404, fetched_at = py ''2025-01-01T00:00:00'', sha1 = [], links = []\<rparr>] \<and>
   qa (visit site_404 default_args open_robots home init_state) = [] \<and>
   queue (visit site_404 default_args open_robots home init_state) = []"
proof -
  have f: "fetch site_404 (length (raw_pages init_state)) home = Inr (404, py ''text/html'', [], [])"
    by (rule fetch_site_404)
  have n: "(404 :: int) \<noteq> 200" by simp
  have u: "utcnow site_404 0 = py ''2025-01-01T00:00:00''"
    by (simp add: site_404_def offline_def)
  from http_error_record [OF f n, of default_args open_robots]
  show ?thesis
    by (simp add: fetch_site_404 str_int_404 u init_state_def) (simp add: py_def)
qed

section \<open>Pacing\<close>

lemma fetch_flaky_home: "fetch flaky_site k home = Inl (Exn (py ''ConnectionError'') (py ''down''))"
  by (simp add: fetch_def flaky_site_def)

lemma sleep_flaky_site: "time_sleep flaky_site (3 / 2) = None"
  by (simp add: flaky_site_def offline_def)

lemma fetch_flaky_page_a: "fetch flaky_site k page_a = Inr (404, [], [], [])"
  by (simp add: fetch_def flaky_site_def home_def page_a_def py_def)

text \<open>
  C5 at a queue of two URLs, where the fetch of the first raises and the second answers
  404: the run fetches the first, then the second, and sleeps only after the second. No
  sleep follows the failed fetch, and the counter is 1 after two visited URLs.
\<close>

theorem no_sleep_after_failed_fetch:
  "trace (crawl_loop flaky_site default_args open_robots (init_state\<lparr>queue := [home, page_a]\<rparr>))
     = [Fetch home, Fetch page_a, Sleep (3 / 2)] \<and>
   count (crawl_loop flaky_site default_args open_robots (init_state\<lparr>queue := [home, page_a]\<rparr>))
     = 1"
proof -
  have ne: "page_a \<noteq> home" by (simp add: home_def page_a_def py_def)
  let ?s0 = "init_state\<lparr>queue := [home, page_a]\<rparr>"
  let ?s1 = "visit flaky_site default_args open_robots home
               (?s0\<lparr>queue := [page_a], seen := insert home (seen ?s0)\<rparr>)"
  let ?s2 = "visit flaky_site default_args open_robots page_a
               (?s1\<lparr>queue := [], seen := insert page_a (seen ?s1)\<rparr>)"
  have v1: "?s1 = init_state\<lparr>queue := [page_a], seen := {home},
      raw_pages := [\<lparr>url = home, content_type = py ''error'', title = [],
              text = py ''[[FETCH ERROR: '' @ py ''down'' @ py '']]'', status = 0,
              fetched_at = utcnow flaky_site 0, sha1 = [], links = []\<rparr>],
      trace := [Fetch home]\<rparr>"
    by (simp add: visit_fetch_error fetch_flaky_home init_state_def)
  have 1: "crawl_loop flaky_site default_args open_robots ?s0 =
           crawl_loop flaky_site default_args open_robots ?s1"
    by (rule crawl_loop_visit) (simp_all add: init_state_def default_args_def)
  have 2: "crawl_loop flaky_site default_args open_robots ?s1 =
           crawl_loop flaky_site default_args open_robots ?s2"
    unfolding v1
    by (rule crawl_loop_visit) (simp_all add: init_state_def default_args_def ne)
  have v2: "trace ?s2 = [Fetch home, Fetch page_a, Sleep (3 / 2)] \<and> count ?s2 = 1 \<and> queue ?s2 = []"
    unfolding v1
    by (simp add: visit_http_error fetch_flaky_page_a init_state_def default_args_def
          sleep_flaky_site)
  then have 3: "crawl_loop flaky_site default_args open_robots ?s2 = ?s2"
    by (intro crawl_loop_stop) simp
  show ?thesis unfolding 1 2 3 using v2 by simp
qed

section \<open>Question and answer records\<close>

lemma urlparse_doc_a:
  "urlparse E doc_a =
     Inr \<lparr>scheme = py ''https'', netloc = py ''www.deltawonen.nl'', path = py ''/a.pdf'',
          params = [], query = [], fragment = []\<rparr>"
  by (simp add: urlparse_def urlsplit_def doc_a_def py_def split_scheme_def splitnetloc_def ch_def
        netloc_delim_def partition1_def checknetloc_def ascii_alpha_def scheme_chars_def
        lower_def lower_cp_def uses_params_def)

lemma guess_filename_doc_a: "guess_filename E doc_a [] = Inr (py ''a.pdf'')"
  by (simp add: guess_filename_def urlparse_doc_a basename_def header_get_def Let_def)
     (simp add: py_def ch_def fname_char_def)

lemma summarize_empty: "summarize [] 1000 = []"
  by (simp add: summarize_def summarize_txt_def split_ws_def slice_to_def)

lemma question_doc_a:
  "strip (replace (py ''_'') (py '' '') (replace (py ''.pdf'') [] (py ''a.pdf''))) = py ''a''"
  by (simp add: py_def strip_def isspace_def)

lemma visit_pdf:
  assumes "fetch E (length (raw_pages st)) u = Inr (200, ctype, content, hs)"
    and "\<not> contains (py ''text/html'') (lower ctype)"
    and "contains (py ''application/pdf'') (lower ctype) \<or> endswith (lower u) (py ''.pdf'')"
    and "guess_filename E u hs = Inr fname"
  shows "visit E A rp u st =
     page_done E A
       (st\<lparr>raw_pages := raw_pages st @
              [\<lparr>url = u, content_type = py ''pdf'', title = fname,
                text = extract_pdf_text E content, status = 200,
                fetched_at = utcnow E (length (raw_pages st)),
                sha1 = sha1_text (extract_pdf_text E content), links = []\<rparr>],
           qa := qa st @
              [\<lparr>question = strip (replace (py ''_'') (py '' '') (replace (py ''.pdf'') [] fname)),
                answer = summarize (extract_pdf_text E content) 1000,
                tags = [py ''deltawonen'', py ''pdf''], sources = [u]\<rparr>],
           assets := assets st @ [(fname, content)],
           trace := trace st @ [Fetch u]\<rparr>)"
  using assms
  apply (simp add: visit_def Let_def pdf_page_def write_raw_def write_qa_def save_asset_def)
  apply (rule arg_cong [where f = "page_done E A"])
  apply simp
  done

text \<open>
  C1 at a PDF from which the extraction yields the empty string: the page record has the
  title \<open>a.pdf\<close> and an empty text, and a QA record with an empty answer is written all the
  same.
\<close>

theorem pdf_with_empty_text_emits_qa:
  "map title (raw_pages (visit scanned_pdf_site default_args open_robots doc_a init_state))
     = [py ''a.pdf''] \<and>
   map text (raw_pages (visit scanned_pdf_site default_args open_robots doc_a init_state))
     = [[]] \<and>
   qa (visit scanned_pdf_site default_args open_robots doc_a init_state) =
     [\<lparr>question = py ''a'', answer = [], tags = [py ''deltawonen'', py ''pdf''],
       sources = [doc_a]\<rparr>]"
proof -
  have f: "fetch scanned_pdf_site (length (raw_pages init_state)) doc_a =
             Inr (200, py ''application/pdf'', [37, 80, 68, 70], [])"
    by (simp add: fetch_def scanned_pdf_site_def)
  have l: "lower (py ''application/pdf'') = py ''application/pdf''"
    by (simp add: lower_def lower_cp_def py_def)
  have nh: "\<not> contains (py ''text/html'') (lower (py ''application/pdf''))"
    unfolding l by (simp add: py_def)
  have p: "contains (py ''application/pdf'') (lower (py ''application/pdf'')) \<or>
           endswith (lower doc_a) (py ''.pdf'')"
    unfolding l by (simp add: py_def)
  have x: "extract_pdf_text scanned_pdf_site [37, 80, 68, 70] = []"
    by (simp add: extract_pdf_text_def scanned_pdf_site_def)
  show ?thesis
    by (simp add: visit_pdf [OF f nh p guess_filename_doc_a] x summarize_empty question_doc_a)
       (simp add: init_state_def)
qed

section \<open>The robots policy after a failed read\<close>

lemma urlparse_robots_txt:
  "urlparse E (py ''/robots.txt'') =
     Inr \<lparr>scheme = [], netloc = [], path = py ''/robots.txt'',
          params = [], query = [], fragment = []\<rparr>"
  by (simp add: urlparse_def urlsplit_def py_def split_scheme_def splitnetloc_def ch_def
        netloc_delim_def partition1_def checknetloc_def ascii_alpha_def scheme_chars_def
        lower_def lower_cp_def uses_params_def)

lemma unread_parser_allows_nothing: "allowed_by_robots RobotFileParser u = False"
  by (simp add: allowed_by_robots_def can_fetch_def RobotFileParser_def)

lemma get_robot_parser_failed_read:
  assumes "urljoin E site (py ''/robots.txt'') = Inr ru" and "urlparse E ru = Inr p"
    and "robots_urlopen E ru = OtherError e"
  shows "get_robot_parser E site = Inr RobotFileParser"
  using assms by (simp add: get_robot_parser_def robots_read_def)

lemma robots_fail_closed:
  assumes "get_robot_parser E site = Inr rp"
    and "urljoin E site (py ''/robots.txt'') = Inr ru"
    and "(\<exists>e. robots_urlopen E ru = OtherError e) \<or>
         (\<exists>raw e. robots_urlopen E ru = Body raw \<and> decode_strict E raw = Inl e) \<or>
         (\<exists>code. robots_urlopen E ru = HTTPError code \<and>
                 (code = 401 \<or> code = 403 \<or> code < 400 \<or> 500 \<le> code))"
  shows "allowed_by_robots rp u = False"
  using assms
  by (auto simp: get_robot_parser_def robots_read_def allowed_by_robots_def can_fetch_def
        RobotFileParser_def split: sum.splits)

text \<open>
  C7 at a site whose robots.txt cannot be fetched (\<open>urlopen\<close> raises): the parser that
  \<open>get_robot_parser\<close> returns has never been read, \<open>allowed_by_robots\<close> is false for the
  start URL (and for every URL), the queue is never filled and the run ends without a
  single fetch.
\<close>

theorem failed_robots_read_blocks_crawl:
  "get_robot_parser offline home = Inr RobotFileParser \<and>
   allowed_by_robots RobotFileParser home = False \<and>
   seeds offline default_args RobotFileParser = [] \<and>
   main offline default_args = init_state"
proof -
  have g: "get_robot_parser offline home = Inr RobotFileParser"
    by (rule get_robot_parser_failed_read [where ru = "py ''/robots.txt''"])
       (simp_all add: offline_def urlparse_robots_txt)
  have s: "seeds offline default_args RobotFileParser = []"
    by (simp add: seeds_def unread_parser_allows_nothing)
  have "main offline default_args = crawl_loop offline default_args RobotFileParser init_state"
    by (simp add: main_def default_args_def DEFAULT_START_def g [unfolded home_def] s [unfolded default_args_def DEFAULT_START_def])
       (simp add: init_state_def)
  also have "\<dots> = init_state"
    by (rule crawl_loop_stop) (simp add: init_state_def)
  finally show ?thesis using g s unread_parser_allows_nothing by simp
qed

section \<open>What one turn of the loop writes\<close>

lemma fetched_append [simp]: "fetched (xs @ ys) = fetched xs @ fetched ys"
  by (induction xs rule: fetched.induct) simp_all

lemma html_page_one_record: "one_record u st (html_page E A rp u code content ts st)"
  by (simp add: one_record_def html_page_def Let_def hash_ok_def split: sum.split prod.split)

lemma pdf_page_one_record: "one_record u st (pdf_page E A u code content hs ts st)"
  by (simp add: one_record_def pdf_page_def Let_def hash_ok_def split: sum.split)

lemma docx_page_one_record: "one_record u st (docx_page E A u code content hs ts st)"
  by (simp add: one_record_def docx_page_def Let_def hash_ok_def split: sum.split)

lemma other_page_one_record: "one_record u st (other_page E A u code cl content hs ts st)"
  by (simp add: one_record_def other_page_def Let_def hash_ok_def split: sum.split)

lemma http_error_page_one_record: "one_record u st (http_error_page E A u code ts st)"
  by (simp add: one_record_def http_error_page_def hash_ok_def)

lemma fetch_error_page_one_record: "one_record u st (fetch_error_page u e ts st)"
  by (simp add: one_record_def fetch_error_page_def hash_ok_def)

lemma visit_effect:
  "seen (visit E A rp u st) = seen st \<and>
   fetched (trace (visit E A rp u st)) = fetched (trace st) @ [u] \<and>
   (raw_pages (visit E A rp u st) = raw_pages st \<or>
    (\<exists>r. raw_pages (visit E A rp u st) = raw_pages st @ [r] \<and> url r = u \<and> hash_ok r))"
proof -
  let ?st = "st\<lparr>trace := trace st @ [Fetch u]\<rparr>"
  have "one_record u ?st (visit E A rp u st)"
  proof (cases rule: visit_cases [of E st u A rp])
    case (fetch_error e)
    then show ?thesis using fetch_error_page_one_record [of u ?st] by simp
  next
    case (html code ctype content hs)
    then show ?thesis using html_page_one_record [of u ?st] by simp
  next
    case (pdf code ctype content hs)
    then show ?thesis using pdf_page_one_record [of u ?st] by simp
  next
    case (docx code ctype content hs)
    then show ?thesis using docx_page_one_record [of u ?st] by simp
  next
    case (other code ctype content hs)
    then show ?thesis using other_page_one_record [of u ?st] by simp
  next
    case (http_error code ctype content hs)
    then show ?thesis using http_error_page_one_record [of u ?st] by simp
  qed
  then show ?thesis by (simp add: one_record_def)
qed

lemma crawl_loop_invariant:
  assumes "I st"
    and skip: "\<And>s u rest. I s \<Longrightarrow> queue s = u # rest \<Longrightarrow> u \<in> seen s \<Longrightarrow> I (s\<lparr>queue := rest\<rparr>)"
    and step: "\<And>s u rest. I s \<Longrightarrow> queue s = u # rest \<Longrightarrow> u \<notin> seen s \<Longrightarrow>
                 I (visit E A rp u (s\<lparr>queue := rest, seen := insert u (seen s)\<rparr>))"
  shows "I (crawl_loop E A rp st)"
  using assms
proof (induction E A rp st rule: crawl_loop.induct)
  case (1 E A rp st)
  note inv = "1.prems"(1) and skip = "1.prems"(2) and step = "1.prems"(3)
  show ?case
  proof (cases "queue st \<noteq> [] \<and> int (count st) < max_pages A \<and> crashed st = None")
    case False
    then show ?thesis using inv by (subst crawl_loop.simps) auto
  next
    case go: True
    then obtain u rest where q: "queue st = u # rest" by (cases "queue st") auto
    show ?thesis
    proof (cases "u \<in> seen st")
      case True
      have h: "hd (queue st) \<in> seen st" using True q by simp
      have i: "I (st\<lparr>queue := tl (queue st)\<rparr>)"
        unfolding q list.sel by (rule skip [OF inv q True])
      have eq: "crawl_loop E A rp st = crawl_loop E A rp (st\<lparr>queue := tl (queue st)\<rparr>)"
        using go h by (subst crawl_loop.simps) simp
      show ?thesis unfolding eq by (rule "1.IH"(1) [OF go h i skip step])
    next
      case False
      have h: "hd (queue st) \<notin> seen st" using False q by simp
      have i: "I (visit E A rp (hd (queue st))
                (st\<lparr>queue := tl (queue st), seen := insert (hd (queue st)) (seen st)\<rparr>))"
        unfolding q list.sel by (rule step [OF inv q False])
      have eq: "crawl_loop E A rp st =
                crawl_loop E A rp (visit E A rp (hd (queue st))
                  (st\<lparr>queue := tl (queue st), seen := insert (hd (queue st)) (seen st)\<rparr>))"
        using go h by (subst crawl_loop.simps) simp
      show ?thesis unfolding eq by (rule "1.IH"(2) [OF go h i skip step])
    qed
  qed
qed


lemma crawl_inv_skip: "crawl_inv s \<Longrightarrow> crawl_inv (s\<lparr>queue := rest\<rparr>)"
  by (simp add: crawl_inv_def)

lemma crawl_inv_visit:
  assumes "crawl_inv s" and "u \<notin> seen s"
  shows "crawl_inv (visit E A rp u (s\<lparr>queue := rest, seen := insert u (seen s)\<rparr>))"
proof -
  let ?s = "s\<lparr>queue := rest, seen := insert u (seen s)\<rparr>"
  let ?v = "visit E A rp u ?s"
  from visit_effect [of E A rp u ?s]
  have sn: "seen ?v = insert u (seen s)"
    and ft: "fetched (trace ?v) = fetched (trace s) @ [u]"
    and rw: "raw_pages ?v = raw_pages s \<or>
             (\<exists>r. raw_pages ?v = raw_pages s @ [r] \<and> url r = u \<and> hash_ok r)"
    by simp_all
  have nu: "u \<notin> url ` set (raw_pages s)" and nf: "u \<notin> set (fetched (trace s))"
    using assms by (auto simp: crawl_inv_def)
  from rw show ?thesis
  proof
    assume "raw_pages ?v = raw_pages s"
    then show ?thesis using assms(1) sn ft nf by (auto simp: crawl_inv_def)
  next
    assume "\<exists>r. raw_pages ?v = raw_pages s @ [r] \<and> url r = u \<and> hash_ok r"
    then obtain r where "raw_pages ?v = raw_pages s @ [r]" "url r = u" "hash_ok r" by blast
    then show ?thesis using assms(1) sn ft nf nu by (auto simp: crawl_inv_def)
  qed
qed

lemma crawl_inv_loop: "crawl_inv st \<Longrightarrow> crawl_inv (crawl_loop E A rp st)"
  by (rule crawl_loop_invariant [where I = crawl_inv])
     (simp_all add: crawl_inv_skip crawl_inv_visit)

lemma crawl_inv_main: "crawl_inv (main E A)"
proof -
  have i: "crawl_inv (init_state\<lparr>queue := q\<rparr>)" for q
    by (simp add: crawl_inv_def init_state_def)
  have r: "crawl_inv (raise e init_state)" for e
    by (simp add: crawl_inv_def init_state_def)
  show ?thesis
    by (simp add: main_def r crawl_inv_loop [OF i] split: list.split sum.split)
qed

text \<open>
  C2: in the run of \<open>main\<close>, for every environment and every argument list, at most one
  page record carries a given URL and a given URL is fetched at most once. The loop marks
  a URL as seen before it fetches it, and a dequeued URL that is seen is dropped without a
  fetch or a write (\<open>crawl_loop_skip\<close>).
\<close>

theorem each_url_fetched_at_most_once:
  "length (filter (\<lambda>r. url r = u) (raw_pages (main E A))) \<le> 1 \<and>
   count_list (fetched (trace (main E A))) u \<le> 1"
proof -
  have d: "distinct (map url (raw_pages (main E A)))"
    and f: "distinct (fetched (trace (main E A)))"
    using crawl_inv_main [of E A] by (simp_all add: crawl_inv_def)
  have c: "distinct xs \<Longrightarrow> count_list xs u \<le> 1" for xs :: "pystr list"
    by (induction xs) auto
  have "length (filter (\<lambda>r. url r = u) xs) = count_list (map url xs) u" for xs :: "PageItem list"
    by (induction xs) simp_all
  then show ?thesis using c [OF d] c [OF f] by simp
qed

lemma length_hex_word: "length (hex_word w) = 8"
  by (simp add: hex_word_def)

lemma length_sha1_text: "length (sha1_text s) = 40"
  by (cases "sha1_digest (encode_utf8_ignore s)")
     (simp add: sha1_text_def hexdigest_def length_hex_word)

section \<open>A failed fetch is recorded and the run goes on\<close>

lemma visit_trace: "\<exists>zs. trace (visit E A rp u st) = trace st @ Fetch u # zs"
proof (cases rule: visit_cases [of E st u A rp])
  case (fetch_error e)
  then show ?thesis by simp
next
  case (html code ctype content hs)
  then show ?thesis
    by (simp add: html_page_def Let_def raise_def split: sum.split prod.split)
next
  case (pdf code ctype content hs)
  then show ?thesis by (simp add: pdf_page_def Let_def raise_def split: sum.split)
next
  case (docx code ctype content hs)
  then show ?thesis by (simp add: docx_page_def Let_def raise_def split: sum.split)
next
  case (other code ctype content hs)
  then show ?thesis by (simp add: other_page_def Let_def raise_def split: sum.split)
next
  case (http_error code ctype content hs)
  then show ?thesis by (simp add: http_error_page_def)
qed

lemma visit_raw_pages: "\<exists>ys. raw_pages (visit E A rp u st) = raw_pages st @ ys"
  using visit_effect [of E A rp u st] by auto

lemma crawl_loop_grows:
  "(\<exists>ys. raw_pages (crawl_loop E A rp st) = raw_pages st @ ys) \<and>
   (\<exists>zs. trace (crawl_loop E A rp st) = trace st @ zs)"
proof (rule crawl_loop_invariant
    [where I = "\<lambda>s. (\<exists>ys. raw_pages s = raw_pages st @ ys) \<and> (\<exists>zs. trace s = trace st @ zs)"])
  show "(\<exists>ys. raw_pages st = raw_pages st @ ys) \<and> (\<exists>zs. trace st = trace st @ zs)"
    by simp
next
  fix s :: state and u rest
  assume "(\<exists>ys. raw_pages s = raw_pages st @ ys) \<and> (\<exists>zs. trace s = trace st @ zs)"
  then show "(\<exists>ys. raw_pages (s\<lparr>queue := rest\<rparr>) = raw_pages st @ ys) \<and>
             (\<exists>zs. trace (s\<lparr>queue := rest\<rparr>) = trace st @ zs)"
    by simp
next
  fix s :: state and u rest
  let ?s = "s\<lparr>queue := rest, seen := insert u (seen s)\<rparr>"
  assume "(\<exists>ys. raw_pages s = raw_pages st @ ys) \<and> (\<exists>zs. trace s = trace st @ zs)"
  then obtain ys zs where s: "raw_pages s = raw_pages st @ ys" "trace s = trace st @ zs"
    by blast
  obtain ys' where r: "raw_pages (visit E A rp u ?s) = raw_pages ?s @ ys'"
    using visit_raw_pages by blast
  obtain zs' where t: "trace (visit E A rp u ?s) = trace ?s @ Fetch u # zs'"
    using visit_trace by blast
  show "(\<exists>ys. raw_pages (visit E A rp u ?s) = raw_pages st @ ys) \<and>
        (\<exists>zs. trace (visit E A rp u ?s) = trace st @ zs)"
    using r t s by simp
qed

text \<open>
  C4: when the fetch of the URL at the head of the queue raises an exception \<open>e\<close>, the
  handler appends the record with \<open>content_type = "error"\<close>, \<open>status = 0\<close> and the text
  \<open>[[FETCH ERROR: e]]\<close>, and the loop goes on: the run from this state is the run from
  the state with that record, the URL marked as seen and the rest of the queue. What the
  run returns holds the record right after the records written before, and the fetch
  right after the earlier events; and when the next queued URL is a new one, the run
  fetches it next. File writes are taken to succeed, as everywhere in this theory.
\<close>

theorem fetch_failure_recorded_and_loop_continues:
  assumes "queue st = u # rest" and "u \<notin> seen st" and "int (count st) < max_pages A"
    and "crashed st = None" and "fetch E (length (raw_pages st)) u = Inl e"
  shows "crawl_loop E A rp st =
         crawl_loop E A rp
           (st\<lparr>queue := rest, seen := insert u (seen st),
               raw_pages := raw_pages st @
                 [\<lparr>url = u, content_type = py ''error'', title = [],
                   text = py ''[[FETCH ERROR: '' @ exn_str e @ py '']]'', status = 0,
                   fetched_at = utcnow E (length (raw_pages st)), sha1 = [], links = []\<rparr>],
               trace := trace st @ [Fetch u]\<rparr>) \<and>
         (\<exists>ys. raw_pages (crawl_loop E A rp st) =
                raw_pages st @
                \<lparr>url = u, content_type = py ''error'', title = [],
                  text = py ''[[FETCH ERROR: '' @ exn_str e @ py '']]'', status = 0,
                  fetched_at = utcnow E (length (raw_pages st)), sha1 = [], links = []\<rparr> # ys) \<and>
         (\<exists>zs. trace (crawl_loop E A rp st) = trace st @ Fetch u # zs) \<and>
         (\<forall>u2 rest2. rest = u2 # rest2 \<and> u2 \<noteq> u \<and> u2 \<notin> seen st \<longrightarrow>
            (\<exists>zs. trace (crawl_loop E A rp st) = trace st @ Fetch u # Fetch u2 # zs))"
proof -
  let ?r = "\<lparr>url = u, content_type = py ''error'', title = [],
             text = py ''[[FETCH ERROR: '' @ exn_str e @ py '']]'', status = 0,
             fetched_at = utcnow E (length (raw_pages st)), sha1 = [], links = []\<rparr>"
  let ?st = "st\<lparr>queue := rest, seen := insert u (seen st)\<rparr>"
  let ?s1 = "st\<lparr>queue := rest, seen := insert u (seen st),
                raw_pages := raw_pages st @ [?r], trace := trace st @ [Fetch u]\<rparr>"
  have "fetch E (length (raw_pages ?st)) u = Inl e" using assms(5) by simp
  from visit_fetch_error [OF this, of A rp] crawl_loop_visit [OF assms(1-4), of E rp]
  have eq: "crawl_loop E A rp st = crawl_loop E A rp ?s1" by simp
  obtain ys zs where g: "raw_pages (crawl_loop E A rp ?s1) = raw_pages ?s1 @ ys"
      "trace (crawl_loop E A rp ?s1) = trace ?s1 @ zs"
    using crawl_loop_grows [of E A rp ?s1] by blast
  have raw: "\<exists>ys. raw_pages (crawl_loop E A rp st) = raw_pages st @ ?r # ys"
    unfolding eq using g(1) by simp
  have tr: "\<exists>zs. trace (crawl_loop E A rp st) = trace st @ Fetch u # zs"
    unfolding eq using g(2) by simp
  have nxt: "\<exists>zs. trace (crawl_loop E A rp st) = trace st @ Fetch u # Fetch u2 # zs"
    if "rest = u2 # rest2" "u2 \<noteq> u" "u2 \<notin> seen st" for u2 rest2
  proof -
    let ?s1' = "?s1\<lparr>queue := rest2, seen := insert u2 (seen ?s1)\<rparr>"
    have "crawl_loop E A rp ?s1 = crawl_loop E A rp (visit E A rp u2 ?s1')"
      by (rule crawl_loop_visit) (use that assms in simp_all)
    moreover obtain zs where "trace (visit E A rp u2 ?s1') = trace ?s1' @ Fetch u2 # zs"
      using visit_trace by blast
    moreover obtain zs' where
      "trace (crawl_loop E A rp (visit E A rp u2 ?s1')) = trace (visit E A rp u2 ?s1') @ zs'"
      using crawl_loop_grows [of E A rp "visit E A rp u2 ?s1'"] by blast
    ultimately show ?thesis unfolding eq by simp
  qed
  show ?thesis using eq raw tr nxt by blast
qed

theorem fetch_failure_witness:
  "crawl_loop offline default_args open_robots (init_state\<lparr>queue := [home, page_a]\<rparr>) =
   init_state\<lparr>seen := {home, page_a},
     raw_pages := [
       \<lparr>url = home, content_type = py ''error'', title = [],
         text = py ''[[FETCH ERROR: down]]'', status = 0,
         fetched_at = py ''2025-01-01T00:00:00'', sha1 = [], links = []\<rparr>,
       \<lparr>url = page_a, content_type = py ''error'', title = [],
         text = py ''[[FETCH ERROR: down]]'', status = 0,
         fetched_at = py ''2025-01-01T00:00:00'', sha1 = [], links = []\<rparr>],
     trace := [Fetch home, Fetch page_a]\<rparr>"
proof -
  have ne: "page_a \<noteq> home" by (simp add: home_def page_a_def py_def)
  let ?e = "Exn (py ''ConnectionError'') (py ''down'')"
  let ?s0 = "init_state\<lparr>queue := [home, page_a]\<rparr>"
  let ?s1 = "?s0\<lparr>queue := [page_a], seen := insert home (seen ?s0),
               raw_pages := raw_pages ?s0 @
                 [\<lparr>url = home, content_type = py ''error'', title = [],
                   text = py ''[[FETCH ERROR: '' @ exn_str ?e @ py '']]'', status = 0,
                   fetched_at = utcnow offline (length (raw_pages ?s0)), sha1 = [], links = []\<rparr>],
               trace := trace ?s0 @ [Fetch home]\<rparr>"
  let ?s2 = "?s1\<lparr>queue := [], seen := insert page_a (seen ?s1),
               raw_pages := raw_pages ?s1 @
                 [\<lparr>url = page_a, content_type = py ''error'', title = [],
                   text = py ''[[FETCH ERROR: '' @ exn_str ?e @ py '']]'', status = 0,
                   fetched_at = utcnow offline (length (raw_pages ?s1)), sha1 = [], links = []\<rparr>],
               trace := trace ?s1 @ [Fetch page_a]\<rparr>"
  have 1: "crawl_loop offline default_args open_robots ?s0 =
           crawl_loop offline default_args open_robots ?s1"
    by (rule fetch_failure_recorded_and_loop_continues [THEN conjunct1])
       (simp_all add: init_state_def default_args_def fetch_offline)
  have 2: "crawl_loop offline default_args open_robots ?s1 =
           crawl_loop offline default_args open_robots ?s2"
    by (rule fetch_failure_recorded_and_loop_continues [THEN conjunct1])
       (simp_all add: init_state_def default_args_def fetch_offline ne)
  have 3: "crawl_loop offline default_args open_robots ?s2 = ?s2"
    by (rule crawl_loop_stop) simp
  have 4: "?s2 = init_state\<lparr>seen := {home, page_a},
     raw_pages := [
       \<lparr>url = home, content_type = py ''error'', title = [],
         text = py ''[[FETCH ERROR: down]]'', status = 0,
         fetched_at = py ''2025-01-01T00:00:00'', sha1 = [], links = []\<rparr>,
       \<lparr>url = page_a, content_type = py ''error'', title = [],
         text = py ''[[FETCH ERROR: down]]'', status = 0,
         fetched_at = py ''2025-01-01T00:00:00'', sha1 = [], links = []\<rparr>],
     trace := [Fetch home, Fetch page_a]\<rparr>"
    by (simp add: init_state_def offline_def py_def insert_commute)
  show ?thesis unfolding 1 2 3 by (rule 4)
qed

section \<open>What the asset pattern matches\<close>

lemma word_single: "word [c] = LitI (of_char c)"
  by (simp add: word_def)

lemma word_Cons: "w \<noteq> [] \<Longrightarrow> word (c # w) = Seq (LitI (of_char c)) (word w)"
  by (cases w) (simp_all add: word_def)

lemma ci_match_Nil [simp]: "ci_match m [] \<longleftrightarrow> m = []"
  by (simp add: ci_match_def)

lemma ci_match_Cons:
  "ci_match m (p # w) \<longleftrightarrow> (\<exists>c cs. m = c # cs \<and> c \<in> set (ci_chars (of_char p)) \<and> ci_match cs w)"
  by (cases m) (simp_all add: ci_match_def)

lemma ci_match_length: "ci_match m w \<Longrightarrow> length m = length w"
  by (simp add: ci_match_def list_all2_lengthD)

lemma rx_run_LitI:
  "t \<in> set (rx_run (LitI p) s) \<longleftrightarrow> (\<exists>c. s = c # t \<and> c \<in> set (ci_chars p))"
  by (cases s) auto

lemma rx_run_Seq: "t \<in> set (rx_run (Seq a b) s) \<longleftrightarrow> (\<exists>m \<in> set (rx_run a s). t \<in> set (rx_run b m))"
  by auto

lemma rx_run_word:
  "w \<noteq> [] \<Longrightarrow> t \<in> set (rx_run (word w) s) \<longleftrightarrow> (\<exists>m. s = m @ t \<and> ci_match m w)"
proof (induction w arbitrary: s)
  case Nil
  then show ?case by simp
next
  case (Cons p w)
  show ?case
  proof (cases "w = []")
    case True
    then show ?thesis
      by (auto simp: word_single rx_run_LitI ci_match_Cons)
  next
    case False
    have "t \<in> set (rx_run (word (p # w)) s) \<longleftrightarrow>
          (\<exists>c. c \<in> set (ci_chars (of_char p)) \<and> (\<exists>m. s = c # m @ t \<and> ci_match m w))"
      unfolding word_Cons [OF False] rx_run_Seq
      using Cons.IH [OF False] by (auto simp: rx_run_LitI)
    also have "\<dots> \<longleftrightarrow> (\<exists>m. s = m @ t \<and> ci_match m (p # w))"
      by (auto simp: ci_match_Cons)
    finally show ?thesis .
  qed
qed

lemma rx_run_alts:
  "rs \<noteq> [] \<Longrightarrow> t \<in> set (rx_run (alts rs) s) \<longleftrightarrow> (\<exists>r \<in> set rs. t \<in> set (rx_run r s))"
proof (induction rs)
  case Nil
  then show ?case by simp
next
  case (Cons r rs)
  show ?case
  proof (cases "rs = []")
    case True
    then show ?thesis by (simp add: alts_def)
  next
    case False
    then have "alts (r # rs) = Alt r (alts rs)" by (simp add: alts_def)
    then show ?thesis using Cons.IH [OF False] by auto
  qed
qed

lemma rx_run_woff:
  "t \<in> set (rx_run (Seq (word ''woff'') (Opt (LitI (ch CHR ''2'')))) s) \<longleftrightarrow>
   (\<exists>m. s = m @ t \<and> (ci_match m ''woff'' \<or> ci_match m ''woff2''))"
proof -
  have two: "ci_match m ''woff2'' \<longleftrightarrow> (\<exists>m'. m = m' @ [50] \<and> ci_match m' ''woff'')" for m
    by (auto simp: ci_match_Cons ci_chars_def)
  show ?thesis
    unfolding rx_run_Seq
    by (auto simp: rx_run_word rx_run_LitI ch_def ci_chars_def two)
qed

lemma bex_alternatives:
  "(\<exists>r \<in> set asset_alternatives. Q r) \<longleftrightarrow>
    (Q (word ''jpg'') \<or>
     Q (word ''jpeg'') \<or>
     Q (word ''png'') \<or>
     Q (word ''gif'') \<or>
     Q (word ''svg'') \<or>
     Q (word ''webp'') \<or>
     Q (word ''ico'') \<or>
     Q (word ''css'') \<or>
     Q (word ''js'') \<or>
     Q (Seq (word ''woff'') (Opt (LitI (ch CHR ''2'')))) \<or>
     Q (word ''ttf'') \<or>
     Q (word ''eot'') \<or>
     Q (word ''mp4'') \<or>
     Q (word ''webm'') \<or>
     Q (word ''zip'') \<or>
     Q (word ''rar''))"
  by (simp add: asset_alternatives_def)

lemma bex_extensions:
  "(\<exists>e \<in> set asset_extensions. Q e) \<longleftrightarrow>
    (Q ''jpg'' \<or>
     Q ''jpeg'' \<or>
     Q ''png'' \<or>
     Q ''gif'' \<or>
     Q ''svg'' \<or>
     Q ''webp'' \<or>
     Q ''ico'' \<or>
     Q ''css'' \<or>
     Q ''js'' \<or>
     Q ''woff'' \<or>
     Q ''woff2'' \<or>
     Q ''ttf'' \<or>
     Q ''eot'' \<or>
     Q ''mp4'' \<or>
     Q ''webm'' \<or>
     Q ''zip'' \<or>
     Q ''rar'')"
  by (simp add: asset_extensions_def)

lemma rx_run_alternatives:
  "t \<in> set (rx_run (alts asset_alternatives) s) \<longleftrightarrow>
   (\<exists>e \<in> set asset_extensions. \<exists>m. s = m @ t \<and> ci_match m e)"
proof -
  have "t \<in> set (rx_run (alts asset_alternatives) s) \<longleftrightarrow>
        (\<exists>r \<in> set asset_alternatives. t \<in> set (rx_run r s))"
    by (rule rx_run_alts) (simp add: asset_alternatives_def)
  also have "\<dots> \<longleftrightarrow> (\<exists>e \<in> set asset_extensions. \<exists>m. s = m @ t \<and> ci_match m e)"
    unfolding bex_alternatives bex_extensions rx_run_woff
    by (simp only: rx_run_word list.distinct not_False_eq_True ex_disj_distrib conj_disj_distribL)
       blast
  finally show ?thesis .
qed

lemma rx_run_tail:
  assumes "ch CHR ''?'' \<notin> set s" and "10 \<notin> set s"
  shows "rx_run asset_tail s \<noteq> [] \<longleftrightarrow> s = []"
proof (cases s)
  case Nil
  then show ?thesis by (simp add: asset_tail_def)
next
  case (Cons c cs)
  then have "c \<noteq> ch CHR ''?''" and "s \<noteq> [10]" using assms by auto
  then show ?thesis using Cons by (simp add: asset_tail_def ci_chars_def ch_def)
qed

lemma tails_self: "s \<in> set (tails s)"
  by (cases s) simp_all

lemma set_tails: "t \<in> set (tails s) \<longleftrightarrow> (\<exists>pre. s = pre @ t)"
proof (induction s)
  case Nil
  then show ?case by simp
next
  case (Cons c s)
  have "(\<exists>pre. c # s = pre @ t) \<longleftrightarrow> t = c # s \<or> (\<exists>pre. s = pre @ t)"
    by (simp add: Cons_eq_append_conv ex_disj_distrib) blast
  then show ?case using Cons.IH by simp
qed

lemma rx_search_iff: "rx_search r s \<longleftrightarrow> (\<exists>pre t. s = pre @ t \<and> rx_run r t \<noteq> [])"
  by (simp add: rx_search_def list_ex_iff Bex_def set_tails) blast

lemma ends_in_asset_extension_iff:
  "ends_in_asset_extension p \<longleftrightarrow>
   (\<exists>e \<in> set asset_extensions. \<exists>pre m. p = pre @ ch CHR ''.'' # m \<and> ci_match m e)"
proof
  assume "ends_in_asset_extension p"
  then obtain e where e: "e \<in> set asset_extensions" "Suc (length e) \<le> length p"
    and m: "ci_match (drop (length p - Suc (length e)) p) (CHR ''.'' # e)"
    by (auto simp: ends_in_asset_extension_def list_ex_iff)
  from m obtain c cs where d: "drop (length p - Suc (length e)) p = c # cs"
    and c: "c \<in> set (ci_chars (of_char CHR ''.''))" and cs: "ci_match cs e"
    by (auto simp: ci_match_Cons)
  have "c = ch CHR ''.''" using c by (simp add: ci_chars_def ch_def)
  then have "p = take (length p - Suc (length e)) p @ ch CHR ''.'' # cs"
    using d by (metis append_take_drop_id)
  then show "\<exists>e \<in> set asset_extensions. \<exists>pre m. p = pre @ ch CHR ''.'' # m \<and> ci_match m e"
    using e(1) cs by blast
next
  assume "\<exists>e \<in> set asset_extensions. \<exists>pre m. p = pre @ ch CHR ''.'' # m \<and> ci_match m e"
  then obtain e pre m where e: "e \<in> set asset_extensions"
    and p: "p = pre @ ch CHR ''.'' # m" and m: "ci_match m e" by blast
  have l: "length m = length e" using m by (rule ci_match_length)
  have "drop (length p - Suc (length e)) p = ch CHR ''.'' # m" using p l by simp
  moreover have "ci_match (ch CHR ''.'' # m) (CHR ''.'' # e)"
    using m by (simp add: ci_match_Cons ci_chars_def ch_def)
  moreover have "Suc (length e) \<le> length p" using p l by simp
  ultimately show "ends_in_asset_extension p"
    using e by (auto simp: ends_in_asset_extension_def list_ex_iff)
qed

lemma rx_run_asset_rx:
  assumes "ch CHR ''?'' \<notin> set t" and "10 \<notin> set t"
  shows "rx_run asset_rx t \<noteq> [] \<longleftrightarrow>
         (\<exists>e \<in> set asset_extensions. \<exists>m. t = ch CHR ''.'' # m \<and> ci_match m e)"
proof -
  have ne: "xs \<noteq> [] \<longleftrightarrow> (\<exists>x. x \<in> set xs)" for xs :: "pystr list"
    by (cases xs) auto
  have "rx_run asset_rx t \<noteq> [] \<longleftrightarrow> (\<exists>x. x \<in> set (rx_run asset_rx t))"
    by (rule ne)
  also have "\<dots> \<longleftrightarrow> (\<exists>t1. t = ch CHR ''.'' # t1 \<and>
        (\<exists>t2 \<in> set (rx_run (alts asset_alternatives) t1). rx_run asset_tail t2 \<noteq> []))"
    unfolding asset_rx_def rx_run_Seq rx_run_LitI ne
    by (auto simp: ci_chars_def ch_def)
  also have "\<dots> \<longleftrightarrow> (\<exists>t1. t = ch CHR ''.'' # t1 \<and> [] \<in> set (rx_run (alts asset_alternatives) t1))"
  proof -
    have "rx_run asset_tail t2 \<noteq> [] \<longleftrightarrow> t2 = []"
      if "t = ch CHR ''.'' # t1" "t2 \<in> set (rx_run (alts asset_alternatives) t1)" for t1 t2
    proof -
      from that(2) obtain m where "t1 = m @ t2" unfolding rx_run_alternatives by blast
      then have "set t2 \<subseteq> set t" using that(1) by auto
      then show ?thesis using assms by (intro rx_run_tail) auto
    qed
    then show ?thesis by blast
  qed
  also have "\<dots> \<longleftrightarrow> (\<exists>e \<in> set asset_extensions. \<exists>m. t = ch CHR ''.'' # m \<and> ci_match m e)"
    unfolding rx_run_alternatives by auto
  finally show ?thesis .
qed

lemma asset_rx_search:
  assumes "ch CHR ''?'' \<notin> set p" and "10 \<notin> set p"
  shows "rx_search asset_rx p \<longleftrightarrow> ends_in_asset_extension p"
proof -
  have "rx_run asset_rx t \<noteq> [] \<longleftrightarrow>
        (\<exists>e \<in> set asset_extensions. \<exists>m. t = ch CHR ''.'' # m \<and> ci_match m e)"
    if "p = pre @ t" for pre t
    using assms that by (intro rx_run_asset_rx) auto
  then show ?thesis
    unfolding rx_search_iff ends_in_asset_extension_iff by blast
qed

section \<open>What the scope filter accepts\<close>

lemma urlsplit_path:
  assumes "urlsplit E u = Inr r"
  shows "ch CHR ''?'' \<notin> set (path r) \<and> 10 \<notin> set (path r)"
proof -
  define url1 where "url1 = filter (\<lambda>c. c \<noteq> 9 \<and> c \<noteq> 13 \<and> c \<noteq> 10) (dropWhile (\<lambda>c. c \<le> 32) u)"
  define url2 where "url2 = snd (split_scheme url1)"
  define url3 where "url3 = snd (if take 2 url2 = py ''//'' then splitnetloc url2 else ([], url2))"
  have p: "path r = fst (partition1 (ch CHR ''?'') (fst (partition1 (ch CHR ''#'') url3)))"
    using assms unfolding urlsplit_def Let_def url1_def url2_def url3_def
    by (auto simp: case_prod_beta split: if_splits option.splits)
  have 1: "10 \<notin> set url1" by (simp add: url1_def)
  have 2: "set url2 \<subseteq> set url1"
    by (auto simp: url2_def split_scheme_def Let_def dest: in_set_dropD)
  have 3: "set url3 \<subseteq> set url2"
    by (auto simp: url3_def splitnetloc_def dest: set_dropWhileD in_set_dropD)
  have 4: "set (path r) \<subseteq> set url3"
    unfolding p partition1_def by (auto dest: set_takeWhileD)
  have 5: "ch CHR ''?'' \<notin> set (path r)"
    unfolding p partition1_def by (auto dest: set_takeWhileD)
  show ?thesis using 1 2 3 4 5 by auto
qed

lemma splitparams_subset: "set (fst (splitparams s)) \<subseteq> set s"
  by (auto simp: splitparams_def partition1_def Let_def
        dest: set_takeWhileD in_set_takeD in_set_dropD)

lemma urlparse_path:
  assumes "urlparse E u = Inr p"
  shows "ch CHR ''?'' \<notin> set (path p) \<and> 10 \<notin> set (path p)"
proof (cases "urlsplit E u")
  case (Inl e)
  then show ?thesis using assms by (simp add: urlparse_def)
next
  case (Inr r)
  note r = urlsplit_path [OF Inr]
  show ?thesis
  proof (cases "scheme r \<in> set uses_params \<and> ch CHR '';'' \<in> set (path r)")
    case True
    then have "path p = fst (splitparams (path r))"
      using assms Inr by (auto simp: urlparse_def)
    then show ?thesis using r splitparams_subset [of "path r"] by auto
  next
    case False
    then have "p = r" using assms Inr by (auto simp: urlparse_def)
    then show ?thesis using r by simp
  qed
qed

lemma is_allowed_iff:
  "is_allowed E u \<longleftrightarrow>
   (\<exists>p. urlparse E u = Inr p \<and> scheme p \<in> {py ''http'', py ''https''} \<and>
        lower (netloc p) \<in> ALLOWED_NETLOCS \<and> \<not> ends_in_asset_extension (path p))"
proof (cases "urlparse E u")
  case (Inl e)
  then show ?thesis by (simp add: is_allowed_def is_allowed_try_def)
next
  case (Inr p)
  have "rx_search asset_rx (path p) \<longleftrightarrow> ends_in_asset_extension (path p)"
    using urlparse_path [OF Inr] by (intro asset_rx_search) simp_all
  then show ?thesis using Inr by (simp add: is_allowed_def is_allowed_try_def)
qed

lemmas urlparse_simps =
  urlparse_def urlsplit_def py_def split_scheme_def splitnetloc_def ch_def
  netloc_delim_def partition1_def checknetloc_def ascii_alpha_def scheme_chars_def
  lower_def lower_cp_def uses_params_def

lemma urlparse_home:
  "urlparse E home =
     Inr \<lparr>scheme = py ''https'', netloc = py ''www.deltawonen.nl'', path = py ''/'',
          params = [], query = [], fragment = []\<rparr>"
  by (simp add: home_def urlparse_simps)

lemma urlparse_page_a:
  "urlparse E page_a =
     Inr \<lparr>scheme = py ''https'', netloc = py ''www.deltawonen.nl'', path = py ''/a'',
          params = [], query = [], fragment = []\<rparr>"
  by (simp add: page_a_def urlparse_simps)

lemma urlparse_with_port:
  "urlparse E with_port =
     Inr \<lparr>scheme = py ''https'', netloc = py ''www.deltawonen.nl:443'', path = py ''/'',
          params = [], query = [], fragment = []\<rparr>"
  by (simp add: with_port_def urlparse_simps)

lemma urlparse_open_bracket:
  "urlparse E (py ''http://[/'') = Inl (Exn (py ''ValueError'') (py ''Invalid IPv6 URL''))"
  by (simp add: urlparse_simps)

lemma short_path_no_extension: "length p \<le> 2 \<Longrightarrow> \<not> ends_in_asset_extension p"
  by (simp add: ends_in_asset_extension_def asset_extensions_def)

lemma is_allowed_home: "is_allowed E home"
  unfolding is_allowed_iff urlparse_home
  by (simp add: short_path_no_extension ALLOWED_NETLOCS_def lower_def lower_cp_def py_def)

lemma is_allowed_page_a: "is_allowed E page_a"
  unfolding is_allowed_iff urlparse_page_a
  by (simp add: short_path_no_extension ALLOWED_NETLOCS_def lower_def lower_cp_def py_def)

text \<open>
  C3, as the code decides it: for every URL string, \<open>is_allowed\<close> returns true exactly
  when \<open>urlparse\<close> succeeds, the scheme is http or https, the netloc in lower case (the
  host together with any user information and port) is one of the two allowed names, and
  the path does not end in a dot and an extension of the denylist; when \<open>urlparse\<close>
  raises, the answer is false. \<open>is_allowed\<close> is a total function into the booleans.
\<close>

theorem scope_filter_accepts_iff:
  "(is_allowed E u \<longleftrightarrow>
      (\<exists>p. urlparse E u = Inr p \<and> scheme p \<in> {py ''http'', py ''https''} \<and>
           lower (netloc p) \<in> ALLOWED_NETLOCS \<and> \<not> ends_in_asset_extension (path p))) \<and>
   (\<forall>e. urlparse E u = Inl e \<longrightarrow> is_allowed E u = False)"
  using is_allowed_iff [of E u] by auto

theorem scope_filter_witness:
  "is_allowed offline home \<and>
   urlparse offline (py ''http://[/'') = Inl (Exn (py ''ValueError'') (py ''Invalid IPv6 URL'')) \<and>
   is_allowed offline (py ''http://[/'') = False"
  using scope_filter_accepts_iff [of offline home]
    scope_filter_accepts_iff [of offline "py ''http://[/''"]
  unfolding urlparse_home urlparse_open_bracket
  by (simp add: short_path_no_extension ALLOWED_NETLOCS_def lower_def lower_cp_def py_def)

text \<open>
  The property speaks of the host where the code compares the netloc. For
  \<open>https://www.deltawonen.nl:443/\<close> the scheme is https, the host is
  \<open>www.deltawonen.nl\<close> and the path ends in no extension, and the filter rejects the URL.
\<close>

theorem scope_filter_port_counterexample:
  "urlparse offline with_port =
     Inr \<lparr>scheme = py ''https'', netloc = py ''www.deltawonen.nl:443'', path = py ''/'',
          params = [], query = [], fragment = []\<rparr> \<and>
   hostname (py ''www.deltawonen.nl:443'') = py ''www.deltawonen.nl'' \<and>
   py ''www.deltawonen.nl'' \<in> ALLOWED_NETLOCS \<and>
   \<not> ends_in_asset_extension (py ''/'') \<and>
   is_allowed offline with_port = False"
proof -
  have "is_allowed offline with_port = False"
    unfolding is_allowed_iff urlparse_with_port
    by (simp add: ALLOWED_NETLOCS_def lower_def lower_cp_def py_def)
  moreover have "hostname (py ''www.deltawonen.nl:443'') = py ''www.deltawonen.nl''"
    by (simp add: hostname_def Let_def py_def ch_def lower_def lower_cp_def)
  moreover have "\<not> ends_in_asset_extension (py ''/'')"
    by (rule short_path_no_extension) (simp add: py_def)
  ultimately show ?thesis
    by (simp add: urlparse_with_port ALLOWED_NETLOCS_def)
qed

section \<open>The content hash of a page record\<close>

lemma empty_not_article: "\<not> html_is_article []"
  by (simp add: html_is_article_def split_ws_def)

lemma visit_html:
  assumes "fetch E (length (raw_pages st)) u = Inr (200, ctype, content, hs)"
    and "contains (py ''text/html'') (lower ctype)"
    and "clean_html_to_text E (decode_ignore E content) = Inr (ttl, txt0)"
    and "discover_links E u (decode_ignore E content) = Inr lks"
  shows "queue (visit E A rp u st) =
           queue st @ filter (\<lambda>v. v \<notin> seen st \<and> is_allowed E v \<and> allowed_by_robots rp v) lks"
    and "raw_pages (visit E A rp u st) =
           raw_pages st @
           [\<lparr>url = u, content_type = py ''html'', title = ttl,
             text = (if html_is_article txt0 then txt0
                     else soup_get_text E (decode_ignore E content)),
             status = 200, fetched_at = utcnow E (length (raw_pages st)),
             sha1 = sha1_text (if html_is_article txt0 then txt0
                               else soup_get_text E (decode_ignore E content)),
             links = lks\<rparr>]"
    and "seen (visit E A rp u st) = seen st"
    and "count (visit E A rp u st) = Suc (count st)"
  using assms by (auto simp add: visit_def Let_def html_page_def empty_not_article)

lemma open_robots_allow: "allowed_by_robots open_robots u"
  by (simp add: allowed_by_robots_def can_fetch_def open_robots_def RobotFileParser_def)

lemma get_robot_parser_blank: "get_robot_parser blank_html_open home = Inr open_robots"
  by (simp add: get_robot_parser_def blank_html_open_def blank_html_site_def offline_def
        urlparse_robots_txt robots_read_def open_robots_def RobotFileParser_def)

lemma seeds_blank: "seeds blank_html_open default_args open_robots = [home]"
proof -
  have "get_sitemap_urls blank_html_open = []"
    by (simp add: get_sitemap_urls_def SITEMAPS_def sitemap_urls_def blank_html_open_def
          blank_html_site_def offline_def fromkeys_def)
  moreover have "start default_args = [home]"
    by (simp add: default_args_def DEFAULT_START_def home_def)
  ultimately show ?thesis
    by (simp add: seeds_def is_allowed_home open_robots_allow)
qed

lemma main_blank: "raw_pages (main blank_html_open default_args) = [blank_record]"
proof -
  let ?E = blank_html_open
  let ?s0 = "init_state\<lparr>queue := [], seen := {home}\<rparr>"
  have f: "fetch ?E (length (raw_pages ?s0)) home =
             Inr (200, py ''text/html; charset=utf-8'', [], [])"
    by (simp add: fetch_def blank_html_open_def blank_html_site_def init_state_def)
  have c: "contains (py ''text/html'') (lower (py ''text/html; charset=utf-8''))"
    by (simp add: lower_def lower_cp_def py_def)
  have r: "clean_html_to_text ?E (decode_ignore ?E []) = Inr (py ''Delta Wonen'', [])"
    by (simp add: clean_html_to_text_def blank_html_open_def blank_html_site_def)
  have d: "discover_links ?E home (decode_ignore ?E []) = Inr []"
    by (simp add: discover_links_def blank_html_open_def blank_html_site_def offline_def
          fromkeys_def)
  note a = empty_not_article
  have g: "soup_get_text ?E (decode_ignore ?E []) = []"
    by (simp add: blank_html_open_def blank_html_site_def offline_def)
  have t: "utcnow ?E k = py ''2025-01-01T00:00:00''" for k
    by (simp add: blank_html_open_def blank_html_site_def offline_def)
  note v = visit_html [OF f c r d, of default_args open_robots]
  have "main ?E default_args =
        crawl_loop ?E default_args open_robots (init_state\<lparr>queue := [home]\<rparr>)"
    using get_robot_parser_blank
    by (simp add: main_def default_args_def DEFAULT_START_def home_def
          seeds_blank [unfolded default_args_def DEFAULT_START_def home_def])
  also have "\<dots> = crawl_loop ?E default_args open_robots
                      (visit ?E default_args open_robots home ?s0)"
    using crawl_loop_visit [of "init_state\<lparr>queue := [home]\<rparr>" home "[]" default_args ?E open_robots]
    by (simp add: init_state_def default_args_def)
  also have "\<dots> = visit ?E default_args open_robots home ?s0"
    by (rule crawl_loop_stop) (simp add: v(1))
  finally show ?thesis
    by (simp add: v(2) a g t blank_record_def) (simp add: init_state_def)
qed

lemma fetch_blank:
  "fetch blank_html_open k u = Inr (200, py ''text/html; charset=utf-8'', [], [])"
  by (simp add: fetch_def blank_html_open_def blank_html_site_def)

lemma html_content_type: "contains (py ''text/html'') (lower (py ''text/html; charset=utf-8''))"
  by (simp add: lower_def lower_cp_def py_def)

lemma clean_blank:
  "clean_html_to_text blank_html_open (decode_ignore blank_html_open []) =
     Inr (py ''Delta Wonen'', [])"
  by (simp add: clean_html_to_text_def blank_html_open_def blank_html_site_def)

lemma discover_blank:
  "discover_links blank_html_open u (decode_ignore blank_html_open []) = Inr []"
  by (simp add: discover_links_def blank_html_open_def blank_html_site_def offline_def
        fromkeys_def)

text \<open>
  C8, as the code writes the records: the hash of every page record of a run is either
  the SHA-1 digest of the record's text, which has 40 characters, or the empty string, and
  it is the empty string only in an error record or in a record without text. The record
  that the HTML branch writes always has the digest of its text, also when the text is
  empty.
\<close>

theorem content_hash_of_every_record:
  "(r \<in> set (raw_pages (main E A)) \<longrightarrow>
      (sha1 r = sha1_text (text r) \<and> length (sha1 r) = 40) \<or>
      (sha1 r = [] \<and> (content_type r = py ''error'' \<or> text r = []))) \<and>
   (fetch E (length (raw_pages st)) u = Inr (200, ctype, content, hs) \<and>
    contains (py ''text/html'') (lower ctype) \<and>
    clean_html_to_text E (decode_ignore E content) = Inr (ttl, txt0) \<and>
    discover_links E u (decode_ignore E content) = Inr lks \<longrightarrow>
      (\<exists>x. raw_pages (visit E A rp u st) = raw_pages st @ [x] \<and>
           content_type x = py ''html'' \<and>
           sha1 x = sha1_text (text x) \<and> length (sha1 x) = 40))"
proof (intro conjI impI)
  assume m: "r \<in> set (raw_pages (main E A))"
  have "list_all hash_ok (raw_pages (main E A))"
    using crawl_inv_main [of E A] by (simp add: crawl_inv_def)
  then have "hash_ok r" using m by (simp add: list_all_iff)
  then show "(sha1 r = sha1_text (text r) \<and> length (sha1 r) = 40) \<or>
             (sha1 r = [] \<and> (content_type r = py ''error'' \<or> text r = []))"
    by (auto simp: hash_ok_def length_sha1_text)
next
  assume a: "fetch E (length (raw_pages st)) u = Inr (200, ctype, content, hs) \<and>
    contains (py ''text/html'') (lower ctype) \<and>
    clean_html_to_text E (decode_ignore E content) = Inr (ttl, txt0) \<and>
    discover_links E u (decode_ignore E content) = Inr lks"
  have "raw_pages (visit E A rp u st) =
           raw_pages st @
           [\<lparr>url = u, content_type = py ''html'', title = ttl,
             text = (if html_is_article txt0 then txt0
                     else soup_get_text E (decode_ignore E content)),
             status = 200, fetched_at = utcnow E (length (raw_pages st)),
             sha1 = sha1_text (if html_is_article txt0 then txt0
                               else soup_get_text E (decode_ignore E content)),
             links = lks\<rparr>]"
    using a by (intro visit_html(2)) auto
  then show "\<exists>x. raw_pages (visit E A rp u st) = raw_pages st @ [x] \<and>
           content_type x = py ''html'' \<and>
           sha1 x = sha1_text (text x) \<and> length (sha1 x) = 40"
    by (simp add: length_sha1_text)
qed

theorem content_hash_witness:
  "blank_record \<in> set (raw_pages (main blank_html_open default_args)) \<and>
   sha1 blank_record = sha1_text (text blank_record) \<and> length (sha1 blank_record) = 40 \<and>
   (\<exists>x. raw_pages (visit blank_html_open default_args open_robots home init_state) =
          raw_pages init_state @ [x] \<and>
        content_type x = py ''html'' \<and> sha1 x = sha1_text (text x) \<and> length (sha1 x) = 40)"
  using content_hash_of_every_record
          [of blank_record blank_html_open default_args init_state home
              "py ''text/html; charset=utf-8''" "[]" "[]" "py ''Delta Wonen''" "[]" "[]"
              open_robots]
  by (simp add: main_blank fetch_blank html_content_type clean_blank discover_blank)
     (simp add: blank_record_def length_sha1_text)

text \<open>
  An HTML page from which no text is extracted: the run writes a record with an empty
  text whose hash is the digest of the empty string, 40 characters long.
\<close>

theorem empty_text_hash_counterexample:
  "raw_pages (main blank_html_open default_args) =
     [\<lparr>url = home, content_type = py ''html'', title = py ''Delta Wonen'', text = [],
       status = 200, fetched_at = py ''2025-01-01T00:00:00'', sha1 = sha1_text [],
       links = []\<rparr>] \<and>
   length (sha1_text []) = 40"
  by (simp add: main_blank blank_record_def length_sha1_text)

section \<open>Entries of the queue for the same URL\<close>

lemma set_fromkeys_acc: "set (fromkeys_acc had xs) = set xs - set had"
  by (induction xs arbitrary: had) auto

lemma distinct_fromkeys_acc: "distinct (fromkeys_acc had xs)"
  by (induction xs arbitrary: had) (auto simp: set_fromkeys_acc)

lemma discover_links_distinct:
  assumes "discover_links E u h = Inr lks"
  shows "distinct lks" and "\<And>v. v \<in> set lks \<Longrightarrow> is_allowed E v"
  using assms
  by (auto simp: discover_links_def fromkeys_def distinct_fromkeys_acc set_fromkeys_acc
        split: sum.splits)

lemma count_list_filter:
  "count_list (filter P xs) v = (if P v then count_list xs v else 0)"
  by (induction xs) auto

lemma count_list_distinct: "distinct xs \<Longrightarrow> v \<in> set xs \<Longrightarrow> count_list xs v = 1"
  by (induction xs) (auto simp: count_list_0_iff)

lemma seen_not_fetched_again:
  assumes "v \<in> seen st"
  shows "count_list (fetched (trace (crawl_loop E A rp st))) v = count_list (fetched (trace st)) v"
proof -
  define c where "c = count_list (fetched (trace st)) v"
  define I where "I s \<longleftrightarrow> v \<in> seen s \<and> count_list (fetched (trace s)) v = c" for s :: state
  have "I (crawl_loop E A rp st)"
  proof (rule crawl_loop_invariant [where I = I])
    show "I st" using assms by (simp add: I_def c_def)
  next
    fix s u rest
    assume "I s"
    then show "I (s\<lparr>queue := rest\<rparr>)" by (simp add: I_def)
  next
    fix s u rest
    assume i: "I s" and "queue s = u # rest" and n: "u \<notin> seen s"
    let ?s = "s\<lparr>queue := rest, seen := insert u (seen s)\<rparr>"
    from i n have "u \<noteq> v" by (auto simp: I_def)
    then show "I (visit E A rp u ?s)"
      using i visit_effect [of E A rp u ?s] by (simp add: I_def)
  qed
  then show ?thesis by (simp add: I_def c_def)
qed

lemma urlparse_page_b:
  "urlparse E page_b =
     Inr \<lparr>scheme = py ''https'', netloc = py ''www.deltawonen.nl'', path = py ''/b'',
          params = [], query = [], fragment = []\<rparr>"
  by (simp add: page_b_def urlparse_simps)

lemma is_allowed_page_b: "is_allowed E page_b"
  unfolding is_allowed_iff urlparse_page_b
  by (simp add: short_path_no_extension ALLOWED_NETLOCS_def lower_def lower_cp_def py_def)

lemma strip_url: "strip home = home" "strip page_b = page_b"
  by (simp_all add: home_def page_b_def py_def strip_def isspace_def)

lemma sitemap_linked: "get_sitemap_urls linked_site = [home]"
  by (simp add: get_sitemap_urls_def SITEMAPS_def sitemap_urls_def linked_site_def
        blank_html_site_def offline_def fromkeys_def strip_url is_allowed_home)
     (simp add: py_def)

lemma start_default: "start default_args = [home]"
  by (simp add: default_args_def DEFAULT_START_def home_def)

text \<open>
  C10: the queue keeps one entry for each time a URL is offered to it. The seeding loop
  keeps every occurrence of an allowed URL of the sitemap and of the start list; the
  visit of an HTML page adds one entry for each discovered link that is not in \<open>seen\<close> and
  is allowed by robots.txt, whatever the queue already holds; and a URL that is in \<open>seen\<close>
  is not fetched in the rest of the run, however many entries the queue holds for it.
\<close>

theorem queue_keeps_one_entry_per_discovery:
  "count_list (seeds E A rp) v =
     (if is_allowed E v \<and> allowed_by_robots rp v
      then count_list (get_sitemap_urls E @ start A) v else 0) \<and>
   (fetch E (length (raw_pages st)) u = Inr (200, ctype, content, hs) \<and>
    contains (py ''text/html'') (lower ctype) \<and>
    clean_html_to_text E (decode_ignore E content) = Inr (ttl, txt0) \<and>
    discover_links E u (decode_ignore E content) = Inr lks \<and>
    v \<in> set lks \<and> v \<notin> seen st \<and> allowed_by_robots rp v \<longrightarrow>
    count_list (queue (visit E A rp u st)) v = Suc (count_list (queue st) v)) \<and>
   (v \<in> seen st \<longrightarrow>
    count_list (fetched (trace (crawl_loop E A rp st))) v = count_list (fetched (trace st)) v)"
proof (intro conjI impI)
  show "count_list (seeds E A rp) v =
     (if is_allowed E v \<and> allowed_by_robots rp v
      then count_list (get_sitemap_urls E @ start A) v else 0)"
    unfolding seeds_def by (rule count_list_filter)
next
  assume a: "fetch E (length (raw_pages st)) u = Inr (200, ctype, content, hs) \<and>
    contains (py ''text/html'') (lower ctype) \<and>
    clean_html_to_text E (decode_ignore E content) = Inr (ttl, txt0) \<and>
    discover_links E u (decode_ignore E content) = Inr lks \<and>
    v \<in> set lks \<and> v \<notin> seen st \<and> allowed_by_robots rp v"
  then have d: "discover_links E u (decode_ignore E content) = Inr lks" by simp
  have q: "queue (visit E A rp u st) =
           queue st @ filter (\<lambda>v. v \<notin> seen st \<and> is_allowed E v \<and> allowed_by_robots rp v) lks"
    using a by (intro visit_html(1)) auto
  have "count_list lks v = 1"
    using discover_links_distinct(1) [OF d] a by (intro count_list_distinct) auto
  moreover have "is_allowed E v" using discover_links_distinct(2) [OF d] a by simp
  ultimately show "count_list (queue (visit E A rp u st)) v = Suc (count_list (queue st) v)"
    using a by (simp add: q count_list_filter)
next
  assume "v \<in> seen st"
  then show "count_list (fetched (trace (crawl_loop E A rp st))) v =
             count_list (fetched (trace st)) v"
    by (rule seen_not_fetched_again)
qed

theorem queue_duplicates_witness:
  "count_list (seeds linked_site default_args open_robots) home = 2 \<and>
   count_list (queue (visit linked_site default_args open_robots page_a
       (init_state\<lparr>queue := [page_b], seen := {home, page_a}\<rparr>))) page_b = 2 \<and>
   count_list (fetched (trace (crawl_loop linked_site default_args open_robots
       (init_state\<lparr>queue := [page_b, page_b], seen := {home, page_a, page_b},
                   trace := [Fetch home, Fetch page_a, Fetch page_b]\<rparr>)))) page_b = 1"
proof -
  let ?E = linked_site
  let ?s = "init_state\<lparr>queue := [page_b], seen := {home, page_a}\<rparr>"
  let ?t = "init_state\<lparr>queue := [page_b, page_b], seen := {home, page_a, page_b},
                   trace := [Fetch home, Fetch page_a, Fetch page_b]\<rparr>"
  have ne: "page_b \<noteq> home" "page_b \<noteq> page_a"
    by (simp_all add: home_def page_a_def page_b_def py_def)
  have f: "fetch ?E (length (raw_pages ?s)) page_a =
             Inr (200, py ''text/html; charset=utf-8'', [], [])"
    by (simp add: fetch_def linked_site_def blank_html_site_def init_state_def)
  have c: "contains (py ''text/html'') (lower (py ''text/html; charset=utf-8''))"
    by (simp add: lower_def lower_cp_def py_def)
  have r: "clean_html_to_text ?E (decode_ignore ?E []) = Inr (py ''Delta Wonen'', [])"
    by (simp add: clean_html_to_text_def linked_site_def blank_html_site_def)
  have d: "discover_links ?E page_a (decode_ignore ?E []) = Inr [page_b]"
    by (simp add: discover_links_def absolutize_def linked_site_def blank_html_site_def
          offline_def fromkeys_def strip_url is_allowed_page_b)
  have g: "get_sitemap_urls ?E @ start default_args = [home, home]"
    by (simp add: sitemap_linked start_default)
  from queue_keeps_one_entry_per_discovery
         [of ?E default_args open_robots home ?s page_a "py ''text/html; charset=utf-8''"
             "[]" "[]" "py ''Delta Wonen''" "[]" "[page_b]"]
  have 1: "count_list (seeds ?E default_args open_robots) home = 2"
    by (simp add: is_allowed_home open_robots_allow g)
  from queue_keeps_one_entry_per_discovery
         [of ?E default_args open_robots page_b ?s page_a "py ''text/html; charset=utf-8''"
             "[]" "[]" "py ''Delta Wonen''" "[]" "[page_b]"]
  have 2: "count_list (queue (visit ?E default_args open_robots page_a ?s)) page_b = 2"
    using f c r d ne open_robots_allow by (simp add: init_state_def)
  from queue_keeps_one_entry_per_discovery
         [of ?E default_args open_robots page_b ?t page_a "py ''text/html; charset=utf-8''"
             "[]" "[]" "py ''Delta Wonen''" "[]" "[page_b]"]
  have 3: "count_list (fetched (trace (crawl_loop ?E default_args open_robots ?t))) page_b = 1"
    using ne by (simp add: init_state_def)
  show ?thesis using 1 2 3 by simp
qed

end
